theory Spec2Isabelle
  imports Main "HOL-Library.AList" "HOL-Library.Char_ord" "HOL-Library.List_Lexorder"
begin

section \<open>Schema drift detection: \<open>scripts/compare_schemas.py\<close>\<close>

text \<open>
  The script loads two JSON documents (the schema snapshot of the Python implementation
  and the one of the Rust implementation), compares them and prints a drift report.
  In the words of the specification, snapshot A is the Python side, snapshot B the Rust
  side, \<open>missingInB\<close> is \<open>missing_in_rust\<close> and \<open>missingInA\<close> is \<open>missing_in_python\<close>.
\<close>

subsection \<open>Python values\<close>

text \<open>
  A Python \<open>dict\<close> with string keys is an association list: \<open>map_of\<close> is the lookup, the
  first components are \<open>keys()\<close>, and \<open>AList.update\<close> is the assignment \<open>d[k] = v\<close> (an
  existing key keeps its place, a new key goes to the end, as in Python). A Python
  \<open>set\<close> of strings is a list whose order stands for the arbitrary iteration order of the
  set; the script only ever walks \<open>sorted(...)\<close> of a set, which is \<open>py_sorted\<close>.
  A \<open>char\<close> is a code point from U+0000 to U+00FF, so a \<open>string\<close> is a Python \<open>str\<close> of
  such code points (a \<open>str\<close> with a code point beyond U+00FF is not modelled). Strings are
  compared as Python compares \<open>str\<close>: lexicographically, code point by code point.
\<close>

type_synonym 'v dict = "(string \<times> 'v) list"

definition dict_keys :: "'v dict \<Rightarrow> string list" where
  "dict_keys d = map fst d"

definition dict_get :: "'v dict \<Rightarrow> string \<Rightarrow> 'v \<Rightarrow> 'v" where
  "dict_get d k dflt = (case map_of d k of None \<Rightarrow> dflt | Some v \<Rightarrow> v)"

definition py_sorted :: "string list \<Rightarrow> string list" where
  "py_sorted xs = sort (remdups xs)"

text \<open>\<open>sep.join(xs)\<close>.\<close>

fun join :: "string \<Rightarrow> string list \<Rightarrow> string" where
  "join sep [] = []"
| "join sep [x] = x"
| "join sep (x # y # ys) = x @ sep @ join sep (y # ys)"

text \<open>
  \<open>repr\<close> of a \<open>str\<close>: single quotes unless the string holds a single quote and no double
  quote; the quote character and the backslash are escaped, tab, newline and carriage
  return are written \<open>\t\<close>, \<open>\n\<close>, \<open>\r\<close>, and every other code point that is not
  printable as \<open>\xNN\<close>. Up to U+00FF the code points that Python does not print are
  those below U+0020, and those from U+007F to U+00A0, and U+00AD.
\<close>

definition hex_digit :: "nat \<Rightarrow> char" where
  "hex_digit n = ''0123456789abcdef'' ! (n mod 16)"

definition repr_char :: "char \<Rightarrow> char \<Rightarrow> string" where
  "repr_char quote ch =
     (if ch = quote \<or> ch = CHR 0x5C then [CHR 0x5C, ch]
      else if ch = CHR 0x09 then [CHR 0x5C, CHR ''t'']
      else if ch = CHR 0x0A then [CHR 0x5C, CHR ''n'']
      else if ch = CHR 0x0D then [CHR 0x5C, CHR ''r'']
      else if (of_char ch :: nat) < 32 \<or> (127 \<le> (of_char ch :: nat) \<and> (of_char ch :: nat) \<le> 160)
              \<or> ch = CHR 0xAD
        then [CHR 0x5C, CHR ''x'', hex_digit (of_char ch div 16), hex_digit (of_char ch mod 16)]
      else [ch])"

definition py_repr :: "string \<Rightarrow> string" where
  "py_repr s =
     (let quote = (if CHR 0x27 \<in> set s \<and> CHR 0x22 \<notin> set s then CHR 0x22 else CHR 0x27)
      in quote # concat (map (repr_char quote) s) @ [quote])"

text \<open>\<open>str\<close> of a list of strings, as an f-string formats \<open>sorted(missing)\<close>.\<close>

definition py_repr_list :: "string list \<Rightarrow> string" where
  "py_repr_list xs = ''['' @ join '', '' (map py_repr xs) @ '']''"

text \<open>\<open>str\<close> of a length.\<close>

fun str_nat :: "nat \<Rightarrow> string" where
  "str_nat n =
     (if n < 10 then [''0123456789'' ! n]
      else str_nat (n div 10) @ [''0123456789'' ! (n mod 10)])"

subsection \<open>Snapshots\<close>

text \<open>
  The shape of a snapshot document, as \<open>extract_python_schema.py\<close> writes it: the keys
  \<open>bo\<close> and \<open>com\<close> hold a dict from type name to the JSON schema of the type, the key
  \<open>enum\<close> a dict from enum name to the list of its values. Of a type's schema the
  script reads the entry \<open>properties\<close> only (\<open>None\<close>: the schema has none), and of a
  field's schema the entry \<open>type\<close> only (\<open>None\<close>: the field has none, or it is \<open>null\<close>;
  \<open>.get("type")\<close> is \<open>None\<close> for both). A type tag is a string, as in the
  specification's data model; a document in which a tag is a list of type names, or in
  which one of these entries is not a dict, is not of this shape and is not modelled.
\<close>

type_synonym field_schema = "string option"
type_synonym props = "field_schema dict"
type_synonym model_schema = "props option"
type_synonym models = "model_schema dict"
type_synonym enums = "string list dict"

record snapshot =
  categories :: "models dict"
  enums_entry :: "enums option"

subsection \<open>The report\<close>

record DriftReport =
  missing_in_rust :: "string dict"
  missing_in_python :: "string dict"
  type_mismatches :: "string list"

definition empty_report :: DriftReport where
  "empty_report = \<lparr>missing_in_rust = [], missing_in_python = [], type_mismatches = []\<rparr>"

definition has_drift :: "DriftReport \<Rightarrow> bool" where
  "has_drift report =
     (missing_in_rust report \<noteq> [] \<or> missing_in_python report \<noteq> []
      \<or> type_mismatches report \<noteq> [])"

subsection \<open>\<open>compare_enums\<close>\<close>

text \<open>One round of the loop over \<open>sorted(all_names)\<close>.\<close>

definition compare_enums_step ::
  "enums \<Rightarrow> enums \<Rightarrow> DriftReport \<Rightarrow> string \<Rightarrow> DriftReport" where
  "compare_enums_step python_enums rust_enums report name =
     (let py_variants = dict_get python_enums name [];
          rs_variants = dict_get rust_enums name []
      in if name \<notin> set (dict_keys rust_enums) then
           report\<lparr>missing_in_rust :=
             AList.update (''enum/'' @ name) ''entire type'' (missing_in_rust report)\<rparr>
         else if name \<notin> set (dict_keys python_enums) then
           report\<lparr>missing_in_python :=
             AList.update (''enum/'' @ name) ''entire type'' (missing_in_python report)\<rparr>
         else
           let missing = filter (\<lambda>v. v \<notin> set rs_variants) py_variants;
               extra = filter (\<lambda>v. v \<notin> set py_variants) rs_variants;
               report1 =
                 (if missing \<noteq> [] then
                    report\<lparr>missing_in_rust :=
                      AList.update (''enum/'' @ name)
                        (''variants: '' @ py_repr_list (py_sorted missing))
                        (missing_in_rust report)\<rparr>
                  else report)
           in if extra \<noteq> [] then
                report1\<lparr>missing_in_python :=
                  AList.update (''enum/'' @ name)
                    (''variants: '' @ py_repr_list (py_sorted extra))
                    (missing_in_python report1)\<rparr>
              else report1)"

definition compare_enums :: "enums \<Rightarrow> enums \<Rightarrow> DriftReport \<Rightarrow> DriftReport" where
  "compare_enums python_enums rust_enums report =
     foldl (compare_enums_step python_enums rust_enums) report
       (py_sorted (dict_keys python_enums @ dict_keys rust_enums))"

subsection \<open>\<open>compare_models\<close>\<close>

definition ignore_fields :: "string list" where
  "ignore_fields = [''_typ'', ''_version'', ''_id'', ''zusatzAttribute'']"

text \<open>
  \<open>models[name].get("properties", {})\<close>. The subscript is only evaluated for a name that
  is a key of \<open>models\<close>, so the branch of the missing key is never taken.
\<close>

definition get_properties :: "models \<Rightarrow> string \<Rightarrow> props" where
  "get_properties ms name =
     (case map_of ms name of None \<Rightarrow> [] | Some None \<Rightarrow> [] | Some (Some p) \<Rightarrow> p)"

text \<open>
  \<open>props[fld].get("type")\<close>, for a field name drawn from the keys of \<open>props\<close>
  (lemma \<open>common_fields_are_keys\<close> below).
\<close>

definition field_type :: "props \<Rightarrow> string \<Rightarrow> string option" where
  "field_type ps fld = (case map_of ps fld of None \<Rightarrow> None | Some t \<Rightarrow> t)"

text \<open>The f-string of a type mismatch.\<close>

definition mismatch_entry :: "string \<Rightarrow> string \<Rightarrow> string \<Rightarrow> string \<Rightarrow> string \<Rightarrow> string" where
  "mismatch_entry category name fld py_type rs_type =
     category @ ''/'' @ name @ ''.'' @ fld @ '': Python='' @ py_type @ '', Rust='' @ rs_type"

text \<open>
  One round of the loop over the common fields. \<open>py_type and rs_type\<close> tests the two
  values for truth: \<open>None\<close> and the empty string are both false.
\<close>

definition check_field ::
  "string \<Rightarrow> string \<Rightarrow> props \<Rightarrow> props \<Rightarrow> DriftReport \<Rightarrow> string \<Rightarrow> DriftReport" where
  "check_field category name py_props rs_props report fld =
     (case (field_type py_props fld, field_type rs_props fld) of
        (Some py_type, Some rs_type) \<Rightarrow>
          if py_type \<noteq> [] \<and> rs_type \<noteq> [] \<and> py_type \<noteq> rs_type then
            report\<lparr>type_mismatches :=
              type_mismatches report @ [mismatch_entry category name fld py_type rs_type]\<rparr>
          else report
      | _ \<Rightarrow> report)"

text \<open>One round of the loop over \<open>sorted(all_names)\<close>; the two \<open>continue\<close>s come first.\<close>

definition compare_models_step ::
  "string \<Rightarrow> models \<Rightarrow> models \<Rightarrow> DriftReport \<Rightarrow> string \<Rightarrow> DriftReport" where
  "compare_models_step category python_models rust_models report name =
     (if name \<notin> set (dict_keys rust_models) then
        report\<lparr>missing_in_rust :=
          AList.update (category @ ''/'' @ name) ''entire type'' (missing_in_rust report)\<rparr>
      else if name \<notin> set (dict_keys python_models) then
        report\<lparr>missing_in_python :=
          AList.update (category @ ''/'' @ name) ''entire type'' (missing_in_python report)\<rparr>
      else
        let py_props = get_properties python_models name;
            rs_props = get_properties rust_models name;
            py_fields = filter (\<lambda>f. f \<notin> set ignore_fields) (dict_keys py_props);
            rs_fields = filter (\<lambda>f. f \<notin> set ignore_fields) (dict_keys rs_props);
            missing = filter (\<lambda>f. f \<notin> set rs_fields) py_fields;
            extra = filter (\<lambda>f. f \<notin> set py_fields) rs_fields;
            report1 =
              (if missing \<noteq> [] then
                 report\<lparr>missing_in_rust :=
                   AList.update (category @ ''/'' @ name)
                     (''fields: '' @ py_repr_list (py_sorted missing))
                     (missing_in_rust report)\<rparr>
               else report);
            report2 =
              (if extra \<noteq> [] then
                 report1\<lparr>missing_in_python :=
                   AList.update (category @ ''/'' @ name)
                     (''fields: '' @ py_repr_list (py_sorted extra))
                     (missing_in_python report1)\<rparr>
               else report1)
        in foldl (check_field category name py_props rs_props) report2
             (py_sorted (filter (\<lambda>f. f \<in> set rs_fields) py_fields)))"

definition compare_models ::
  "string \<Rightarrow> models \<Rightarrow> models \<Rightarrow> DriftReport \<Rightarrow> DriftReport" where
  "compare_models category python_models rust_models report =
     foldl (compare_models_step category python_models rust_models) report
       (py_sorted (dict_keys python_models @ dict_keys rust_models))"

subsection \<open>\<open>generate_report\<close>\<close>

definition newline :: string where
  "newline = [CHR 0x0A]"

definition bullet :: "string dict \<Rightarrow> string \<Rightarrow> string" where
  "bullet d key = ''- **'' @ key @ ''**: '' @ dict_get d key []"

definition generate_report :: "DriftReport \<Rightarrow> string" where
  "generate_report report =
     (let lines0 = [''# BO4E Drift Report'', '''']
      in if \<not> has_drift report then
           join newline (lines0 @ [''No drift detected - schemas are in sync!''])
         else
           let lines1 = lines0 @ [''Drift detected between Python and Rust schemas'' @ newline];
               lines2 =
                 (if missing_in_rust report \<noteq> [] then
                    lines1 @ [''## Missing in Rust (exists in Python)'' @ newline]
                      @ map (bullet (missing_in_rust report))
                          (py_sorted (dict_keys (missing_in_rust report)))
                      @ ['''']
                  else lines1);
               lines3 =
                 (if missing_in_python report \<noteq> [] then
                    lines2 @ [''## Missing in Python (exists in Rust)'' @ newline]
                      @ map (bullet (missing_in_python report))
                          (py_sorted (dict_keys (missing_in_python report)))
                      @ ['''']
                  else lines2);
               lines4 =
                 (if type_mismatches report \<noteq> [] then
                    lines3 @ [''## Type Mismatches'' @ newline]
                      @ map (\<lambda>mismatch. ''- '' @ mismatch) (sort (type_mismatches report))
                      @ ['''']
                  else lines3)
           in join newline
                (lines4 @
                 [''## Summary'' @ newline,
                  ''- Missing in Rust: '' @ str_nat (length (remdups (dict_keys (missing_in_rust report)))),
                  ''- Missing in Python: '' @ str_nat (length (remdups (dict_keys (missing_in_python report)))),
                  ''- Type mismatches: '' @ str_nat (length (type_mismatches report))]))"

subsection \<open>\<open>main\<close>\<close>

text \<open>
  The comparison that \<open>main\<close> runs on the two loaded documents: \<open>compare_models\<close> for the
  categories \<open>bo\<close> and \<open>com\<close>, then \<open>compare_enums\<close>, all on one report that starts empty.
  A key that a document lacks reads as the empty dict.
\<close>

definition compare :: "snapshot \<Rightarrow> snapshot \<Rightarrow> DriftReport" where
  "compare python rust =
     (let report =
            foldl (\<lambda>report category.
                     compare_models category (dict_get (categories python) category [])
                       (dict_get (categories rust) category []) report)
              empty_report [''bo'', ''com'']
      in compare_enums (case enums_entry python of None \<Rightarrow> [] | Some e \<Rightarrow> e)
           (case enums_entry rust of None \<Rightarrow> [] | Some e \<Rightarrow> e) report)"

text \<open>
  What \<open>main\<close> finds at one of its two paths: no file, a file that \<open>json.load\<close> rejects,
  or a document of the shape above. What the process does: it exits with a status after
  writing to the two streams, or it dies of the exception that \<open>json.load\<close> raised (the
  interpreter then prints a traceback and the status is 1). Both paths are tested for
  existence before either file is read, and the Python file is read first.
\<close>

datatype schema_file = Missing | Unparseable | Parsed snapshot

datatype outcome =
    Exited (status: nat) (stdout: string) (stderr: string)
  | Uncaught_exception

definition main :: "string \<Rightarrow> string \<Rightarrow> schema_file \<Rightarrow> schema_file \<Rightarrow> outcome" where
  "main python_path rust_path python_file rust_file =
     (if python_file = Missing then
        Exited 1 []
          (''Error: '' @ python_path @ '' not found'' @ newline
           @ ''Run: python scripts/extract_python_schema.py > schemas/python_schema.json''
           @ newline)
      else if rust_file = Missing then
        Exited 1 []
          (''Error: '' @ rust_path @ '' not found'' @ newline
           @ ''Run: cargo run --bin generate_schema --features json-schema > schemas/rust_schema.json''
           @ newline)
      else
        case python_file of
          Parsed python \<Rightarrow>
            (case rust_file of
               Parsed rust \<Rightarrow> Exited 0 (generate_report (compare python rust) @ newline) []
             | _ \<Rightarrow> Uncaught_exception)
        | _ \<Rightarrow> Uncaught_exception)"

section \<open>Auxiliary notions\<close>

text \<open>
  What one round of either loop writes, as functions of the two sides and the name: the
  entry (if any) for each of the two dicts and the list of type mismatches. The proofs
  below reduce the loops to these.
\<close>

definition put :: "string \<Rightarrow> string option \<Rightarrow> string dict \<Rightarrow> string dict" where
  "put k v d = (case v of None \<Rightarrow> d | Some x \<Rightarrow> AList.update k x d)"

definition put_all ::
  "('a \<Rightarrow> string) \<Rightarrow> ('a \<Rightarrow> string option) \<Rightarrow> 'a list \<Rightarrow> string dict \<Rightarrow> string dict" where
  "put_all key F names d = foldl (\<lambda>d n. put (key n) (F n) d) d names"

definition reduced_fields :: "models \<Rightarrow> string \<Rightarrow> string list" where
  "reduced_fields ms name =
     filter (\<lambda>f. f \<notin> set ignore_fields) (dict_keys (get_properties ms name))"

definition fields_only_in :: "models \<Rightarrow> models \<Rightarrow> string \<Rightarrow> string list" where
  "fields_only_in ms1 ms2 name =
     filter (\<lambda>f. f \<notin> set (reduced_fields ms2 name)) (reduced_fields ms1 name)"

definition model_finding :: "models \<Rightarrow> models \<Rightarrow> string \<Rightarrow> string option" where
  "model_finding ms1 ms2 name =
     (if name \<notin> set (dict_keys ms2) then Some ''entire type''
      else if name \<notin> set (dict_keys ms1) then None
      else if fields_only_in ms1 ms2 name = [] then None
      else Some (''fields: '' @ py_repr_list (py_sorted (fields_only_in ms1 ms2 name))))"

definition common_fields :: "models \<Rightarrow> models \<Rightarrow> string \<Rightarrow> string list" where
  "common_fields py rs name =
     py_sorted (filter (\<lambda>f. f \<in> set (reduced_fields rs name)) (reduced_fields py name))"

definition field_triple :: "props \<Rightarrow> props \<Rightarrow> string \<Rightarrow> (string \<times> string \<times> string) list" where
  "field_triple pp rp fld =
     (case (field_type pp fld, field_type rp fld) of
        (Some a, Some b) \<Rightarrow> if a \<noteq> [] \<and> b \<noteq> [] \<and> a \<noteq> b then [(fld, a, b)] else []
      | _ \<Rightarrow> [])"

definition model_triples :: "models \<Rightarrow> models \<Rightarrow> string \<Rightarrow> (string \<times> string \<times> string) list" where
  "model_triples py rs name =
     (if name \<in> set (dict_keys py) \<and> name \<in> set (dict_keys rs)
      then concat (map (field_triple (get_properties py name) (get_properties rs name))
                     (common_fields py rs name))
      else [])"

definition entries :: "string \<Rightarrow> string \<Rightarrow> (string \<times> string \<times> string) list \<Rightarrow> string list" where
  "entries c name ts = map (\<lambda>(fld, a, b). mismatch_entry c name fld a b) ts"

definition model_key :: "string \<Rightarrow> string \<Rightarrow> string" where
  "model_key c name = c @ ''/'' @ name"

definition variants_only_in :: "enums \<Rightarrow> enums \<Rightarrow> string \<Rightarrow> string list" where
  "variants_only_in es1 es2 name =
     filter (\<lambda>v. v \<notin> set (dict_get es2 name [])) (dict_get es1 name [])"

definition enum_finding :: "enums \<Rightarrow> enums \<Rightarrow> string \<Rightarrow> string option" where
  "enum_finding es1 es2 name =
     (if name \<notin> set (dict_keys es2) then Some ''entire type''
      else if name \<notin> set (dict_keys es1) then None
      else if variants_only_in es1 es2 name = [] then None
      else Some (''variants: '' @ py_repr_list (py_sorted (variants_only_in es1 es2 name))))"

subsection \<open>Sample documents\<close>

text \<open>
  Two small snapshots in the shape of the specification's scenarios: the type
  \<open>bo/Zaehler\<close> on both sides with a field typed differently, the type \<open>com/Adresse\<close> on
  the Python side only, and the enum \<open>Sparte\<close> with a variant that the Rust side lacks.
\<close>

definition sample_python :: snapshot where
  "sample_python =
     \<lparr>categories =
        [(''bo'', [(''Zaehler'', Some [(''zaehlernummer'', Some ''string''), (''_id'', Some ''string'')])]),
         (''com'', [(''Adresse'', Some [(''ort'', Some ''string'')])])],
      enums_entry = Some [(''Sparte'', [''STROM'', ''GAS''])]\<rparr>"

definition sample_rust :: snapshot where
  "sample_rust =
     \<lparr>categories =
        [(''bo'', [(''Zaehler'', Some [(''zaehlernummer'', Some ''integer'')])])],
      enums_entry = Some [(''Sparte'', [''STROM''])]\<rparr>"

text \<open>The line that \<open>generate_report\<close> writes when there is no drift.\<close>

definition no_drift_line :: string where
  "no_drift_line = ''No drift detected - schemas are in sync!''"

subsection \<open>Notions of the claims\<close>

text \<open>
  Two type tags clash when both are there, neither is the empty string, and they are
  different strings.
\<close>

definition tags_clash :: "string option \<Rightarrow> string option \<Rightarrow> bool" where
  "tags_clash a b = (a \<noteq> None \<and> b \<noteq> None \<and> a \<noteq> Some [] \<and> b \<noteq> Some [] \<and> a \<noteq> b)"

text \<open>The names that are keys on both sides, in the order of the loop.\<close>

definition types_in_both :: "models \<Rightarrow> models \<Rightarrow> string list" where
  "types_in_both py rs =
     filter (\<lambda>n. n \<in> set (dict_keys py) \<and> n \<in> set (dict_keys rs))
       (py_sorted (dict_keys py @ dict_keys rs))"

text \<open>The entry (or none) that a field contributes, given the two tags.\<close>

definition mismatch_if_clash ::
  "string \<Rightarrow> string \<Rightarrow> string \<Rightarrow> string option \<Rightarrow> string option \<Rightarrow> string list" where
  "mismatch_if_clash c name fld a b =
     (if tags_clash a b then [mismatch_entry c name fld (the a) (the b)] else [])"

subsection \<open>Sides that the comparison cannot tell apart\<close>

text \<open>
  The type tag of a field as the truth test of \<open>compare_models\<close> sees it: an empty tag
  counts as none.
\<close>

definition effective_type :: "props \<Rightarrow> string \<Rightarrow> string option" where
  "effective_type ps fld =
     (case field_type ps fld of None \<Rightarrow> None | Some t \<Rightarrow> if t = [] then None else Some t)"

text \<open>
  Two sides agree when they have the same type names, the same reduced field sets, and
  the same tags (to the truth test) for every field outside the ignore set; two enum
  dicts agree when they have the same names and the same sets of variants.
\<close>

definition models_agree :: "models \<Rightarrow> models \<Rightarrow> bool" where
  "models_agree ms ms' \<longleftrightarrow>
     set (dict_keys ms) = set (dict_keys ms')
     \<and> (\<forall>name. set (reduced_fields ms name) = set (reduced_fields ms' name))
     \<and> (\<forall>name fld. fld \<notin> set ignore_fields \<longrightarrow>
           effective_type (get_properties ms name) fld =
           effective_type (get_properties ms' name) fld)"

definition enums_agree :: "enums \<Rightarrow> enums \<Rightarrow> bool" where
  "enums_agree es es' \<longleftrightarrow>
     set (dict_keys es) = set (dict_keys es')
     \<and> (\<forall>name. set (dict_get es name []) = set (dict_get es' name []))"

subsection \<open>Changing a snapshot\<close>

text \<open>
  \<open>models[name].setdefault("properties", {})[fld] = {"type": tag}\<close> and
  \<open>models[name].get("properties", {}).pop(fld, None)\<close> for a type name that \<open>models\<close>
  has (for another name nothing changes), and the two at the type \<open>name\<close> of a category of
  a snapshot. They are the additions and removals of a field that the claims speak of.
\<close>

definition set_field :: "models \<Rightarrow> string \<Rightarrow> string \<Rightarrow> field_schema \<Rightarrow> models" where
  "set_field ms name fld tag =
     AList.map_entry name
       (\<lambda>m. Some (AList.update fld tag (case m of None \<Rightarrow> [] | Some p \<Rightarrow> p))) ms"

definition del_field :: "models \<Rightarrow> string \<Rightarrow> string \<Rightarrow> models" where
  "del_field ms name fld = AList.map_entry name (map_option (AList.delete fld)) ms"

definition add_field :: "snapshot \<Rightarrow> string \<Rightarrow> string \<Rightarrow> string \<Rightarrow> field_schema \<Rightarrow> snapshot" where
  "add_field s category name fld tag =
     s\<lparr>categories := AList.map_entry category (\<lambda>ms. set_field ms name fld tag) (categories s)\<rparr>"

definition remove_field :: "snapshot \<Rightarrow> string \<Rightarrow> string \<Rightarrow> string \<Rightarrow> snapshot" where
  "remove_field s category name fld =
     s\<lparr>categories := AList.map_entry category (\<lambda>ms. del_field ms name fld) (categories s)\<rparr>"

text \<open>Every empty type tag replaced by no tag at all.\<close>

definition drop_empty_tags :: "models \<Rightarrow> models" where
  "drop_empty_tags ms =
     map (\<lambda>(name, m).
            (name, map_option (map (\<lambda>(fld, t). (fld, if t = Some [] then None else t))) m)) ms"

subsection \<open>The same contents in another order\<close>

text \<open>
  Two dicts with the same contents give the same value (up to \<open>same_\<dots>\<close>) for every key;
  the order of their entries, which is the order in which Python would enumerate them, is
  free. An enum's variants are read as a set.
\<close>

definition same_props :: "props \<Rightarrow> props \<Rightarrow> bool" where
  "same_props p p' \<longleftrightarrow> map_of p = map_of p'"

definition same_models :: "models \<Rightarrow> models \<Rightarrow> bool" where
  "same_models ms ms' \<longleftrightarrow>
     (\<forall>name. rel_option (rel_option same_props) (map_of ms name) (map_of ms' name))"

definition same_enums :: "enums \<Rightarrow> enums \<Rightarrow> bool" where
  "same_enums es es' \<longleftrightarrow>
     (\<forall>name. rel_option (\<lambda>vs vs'. set vs = set vs') (map_of es name) (map_of es' name))"

definition same_snapshot :: "snapshot \<Rightarrow> snapshot \<Rightarrow> bool" where
  "same_snapshot s s' \<longleftrightarrow>
     (\<forall>category. rel_option same_models (map_of (categories s) category)
                   (map_of (categories s') category))
     \<and> rel_option same_enums (enums_entry s) (enums_entry s')"

text \<open>The sample Python snapshot with every dict and list in another order.\<close>

definition shuffled_python :: snapshot where
  "shuffled_python =
     \<lparr>categories =
        [(''com'', [(''Adresse'', Some [(''ort'', Some ''string'')])]),
         (''bo'', [(''Zaehler'', Some [(''_id'', Some ''string''), (''zaehlernummer'', Some ''string'')])])],
      enums_entry = Some [(''Sparte'', [''GAS'', ''STROM''])]\<rparr>"

subsection \<open>The type mismatches, before they are formatted\<close>

text \<open>
  The mismatches of one category as tuples of category, type name, field name, Python
  tag and Rust tag, in the order in which \<open>compare_models\<close> appends their entries.
\<close>

definition tagged_triples ::
  "string \<Rightarrow> models \<Rightarrow> models \<Rightarrow> (string \<times> string \<times> string \<times> string \<times> string) list" where
  "tagged_triples c py rs =
     concat (map (\<lambda>n. map (\<lambda>(fld, a, b). (c, n, fld, a, b)) (model_triples py rs n))
               (py_sorted (dict_keys py @ dict_keys rs)))"

section \<open>The loops, round by round\<close>

lemma check_field_eq:
  "check_field c name pp rp r fld =
     r\<lparr>type_mismatches := type_mismatches r @ entries c name (field_triple pp rp fld)\<rparr>"
  by (simp add: check_field_def field_triple_def entries_def split: option.splits)

lemma check_field_fold:
  "foldl (check_field c name pp rp) r flds =
     r\<lparr>type_mismatches := type_mismatches r @ entries c name (concat (map (field_triple pp rp) flds))\<rparr>"
proof (induction flds arbitrary: r)
  case Nil
  show ?case by (simp add: entries_def)
next
  case (Cons f fs)
  have "foldl (check_field c name pp rp) r (f # fs) =
        foldl (check_field c name pp rp) (check_field c name pp rp r f) fs"
    by simp
  also have "\<dots> = r\<lparr>type_mismatches := type_mismatches r @ entries c name (concat (map (field_triple pp rp) (f # fs)))\<rparr>"
    by (simp add: Cons check_field_eq entries_def)
  finally show ?case .
qed

lemma compare_models_step_eq:
  assumes "name \<in> set (dict_keys py) \<union> set (dict_keys rs)"
  shows "compare_models_step c py rs r name =
     \<lparr>missing_in_rust = put (c @ ''/'' @ name) (model_finding py rs name) (missing_in_rust r),
      missing_in_python = put (c @ ''/'' @ name) (model_finding rs py name) (missing_in_python r),
      type_mismatches = type_mismatches r @ entries c name (model_triples py rs name)\<rparr>"
proof (cases "name \<in> set (dict_keys rs)")
  case False
  with assms have "name \<in> set (dict_keys py)" by simp
  with False show ?thesis
    by (simp add: compare_models_step_def put_def model_finding_def model_triples_def entries_def)
next
  case rs: True
  show ?thesis
  proof (cases "name \<in> set (dict_keys py)")
    case False
    with rs show ?thesis
      by (simp add: compare_models_step_def put_def model_finding_def model_triples_def entries_def)
  next
    case True
    with rs show ?thesis
      by (simp add: compare_models_step_def Let_def check_field_fold put_def model_finding_def
          fields_only_in_def reduced_fields_def model_triples_def common_fields_def)
  qed
qed

lemma set_py_sorted [simp]: "set (py_sorted xs) = set xs"
  by (simp add: py_sorted_def)

lemma py_sorted_cong: "set xs = set ys \<Longrightarrow> py_sorted xs = py_sorted ys"
  by (simp add: py_sorted_def sorted_list_of_set_sort_remdups [symmetric])

lemma py_sorted_Nil_iff [simp]: "py_sorted xs = [] \<longleftrightarrow> xs = []"
  by (metis set_py_sorted set_empty)

lemma foldl_steps:
  assumes "\<And>n r. n \<in> set names \<Longrightarrow>
             step r n =
               \<lparr>missing_in_rust = put (key n) (F n) (missing_in_rust r),
                missing_in_python = put (key n) (G n) (missing_in_python r),
                type_mismatches = type_mismatches r @ H n\<rparr>"
  shows "foldl step r names =
           \<lparr>missing_in_rust = put_all key F names (missing_in_rust r),
            missing_in_python = put_all key G names (missing_in_python r),
            type_mismatches = type_mismatches r @ concat (map H names)\<rparr>"
  using assms
proof (induction names arbitrary: r)
  case Nil
  show ?case by (simp add: put_all_def)
next
  case (Cons n ns)
  have step: "step r n =
      \<lparr>missing_in_rust = put (key n) (F n) (missing_in_rust r),
       missing_in_python = put (key n) (G n) (missing_in_python r),
       type_mismatches = type_mismatches r @ H n\<rparr>"
    by (rule Cons.prems) simp
  have "foldl step r (n # ns) = foldl step (step r n) ns"
    by simp
  also have "\<dots> =
      \<lparr>missing_in_rust = put_all key F ns (missing_in_rust (step r n)),
       missing_in_python = put_all key G ns (missing_in_python (step r n)),
       type_mismatches = type_mismatches (step r n) @ concat (map H ns)\<rparr>"
    by (rule Cons.IH) (simp add: Cons.prems)
  also have "\<dots> =
      \<lparr>missing_in_rust = put_all key F (n # ns) (missing_in_rust r),
       missing_in_python = put_all key G (n # ns) (missing_in_python r),
       type_mismatches = type_mismatches r @ concat (map H (n # ns))\<rparr>"
    by (simp add: step put_all_def)
  finally show ?case .
qed

lemma compare_models_eq:
  "compare_models c py rs r =
     \<lparr>missing_in_rust =
        put_all (model_key c) (model_finding py rs) (py_sorted (dict_keys py @ dict_keys rs))
          (missing_in_rust r),
      missing_in_python =
        put_all (model_key c) (model_finding rs py) (py_sorted (dict_keys py @ dict_keys rs))
          (missing_in_python r),
      type_mismatches =
        type_mismatches r @
        concat (map (\<lambda>n. entries c n (model_triples py rs n))
                  (py_sorted (dict_keys py @ dict_keys rs)))\<rparr>"
  unfolding compare_models_def
  by (rule foldl_steps) (simp add: compare_models_step_eq model_key_def)

lemma compare_enums_step_eq:
  assumes "name \<in> set (dict_keys py) \<union> set (dict_keys rs)"
  shows "compare_enums_step py rs r name =
     \<lparr>missing_in_rust = put (model_key ''enum'' name) (enum_finding py rs name) (missing_in_rust r),
      missing_in_python = put (model_key ''enum'' name) (enum_finding rs py name) (missing_in_python r),
      type_mismatches = type_mismatches r @ []\<rparr>"
proof (cases "name \<in> set (dict_keys rs)")
  case False
  with assms have "name \<in> set (dict_keys py)" by simp
  with False show ?thesis
    by (simp add: compare_enums_step_def put_def enum_finding_def model_key_def)
next
  case rs: True
  show ?thesis
  proof (cases "name \<in> set (dict_keys py)")
    case False
    with rs show ?thesis
      by (simp add: compare_enums_step_def put_def enum_finding_def model_key_def)
  next
    case True
    with rs show ?thesis
      by (simp add: compare_enums_step_def Let_def put_def enum_finding_def
          variants_only_in_def model_key_def)
  qed
qed

lemma compare_enums_eq:
  "compare_enums py rs r =
     \<lparr>missing_in_rust =
        put_all (model_key ''enum'') (enum_finding py rs) (py_sorted (dict_keys py @ dict_keys rs))
          (missing_in_rust r),
      missing_in_python =
        put_all (model_key ''enum'') (enum_finding rs py) (py_sorted (dict_keys py @ dict_keys rs))
          (missing_in_python r),
      type_mismatches = type_mismatches r\<rparr>"
proof -
  have "compare_enums py rs r =
     \<lparr>missing_in_rust =
        put_all (model_key ''enum'') (enum_finding py rs) (py_sorted (dict_keys py @ dict_keys rs))
          (missing_in_rust r),
      missing_in_python =
        put_all (model_key ''enum'') (enum_finding rs py) (py_sorted (dict_keys py @ dict_keys rs))
          (missing_in_python r),
      type_mismatches = type_mismatches r @
        concat (map (\<lambda>n. []) (py_sorted (dict_keys py @ dict_keys rs)))\<rparr>"
    unfolding compare_enums_def
    by (rule foldl_steps) (simp add: compare_enums_step_eq)
  then show ?thesis by simp
qed

lemma map_of_put: "map_of (put k v d) k' = (if k' = k \<and> v \<noteq> None then v else map_of d k')"
  by (cases v) (simp_all add: put_def update_conv')

lemma put_all_Cons: "put_all key F (n # ns) d = put_all key F ns (put (key n) (F n) d)"
  by (simp add: put_all_def)

lemma put_all_Nil: "put_all key F [] d = d"
  by (simp add: put_all_def)

lemma put_all_cong_at:
  assumes "\<And>n. n \<in> set names \<Longrightarrow> key n = k \<Longrightarrow> F n = F' n"
    and "map_of d k = map_of d' k"
  shows "map_of (put_all key F names d) k = map_of (put_all key F' names d') k"
  using assms
proof (induction names arbitrary: d d')
  case Nil
  then show ?case by (simp add: put_all_Nil)
next
  case (Cons n ns)
  have "map_of (put (key n) (F n) d) k = map_of (put (key n) (F' n) d') k"
    using Cons.prems by (auto simp: map_of_put)
  then show ?case
    unfolding put_all_Cons by (intro Cons.IH) (simp_all add: Cons.prems)
qed

lemma put_all_other:
  assumes "\<And>n. n \<in> set names \<Longrightarrow> key n \<noteq> k"
  shows "map_of (put_all key F names d) k = map_of d k"
  using assms
proof (induction names arbitrary: d)
  case Nil
  then show ?case by (simp add: put_all_Nil)
next
  case (Cons n ns)
  have "key n \<noteq> k" by (rule Cons.prems) simp
  moreover have "map_of (put_all key F ns (put (key n) (F n) d)) k = map_of (put (key n) (F n) d) k"
    by (rule Cons.IH) (simp add: Cons.prems)
  ultimately show ?case by (simp add: put_all_Cons map_of_put)
qed

lemma put_all_at:
  assumes "inj_on key (set names)" and "n \<in> set names"
  shows "map_of (put_all key F names d) (key n) =
           (case F n of None \<Rightarrow> map_of d (key n) | Some v \<Rightarrow> Some v)"
  using assms
proof (induction names arbitrary: d)
  case Nil
  then show ?case by simp
next
  case (Cons m ms)
  have inj: "inj_on key (set ms)"
    using Cons.prems(1) by (simp add: inj_on_def)
  show ?case
  proof (cases "n \<in> set ms")
    case True
    have "key m = key n \<Longrightarrow> m = n"
      using Cons.prems by (auto simp: inj_on_def)
    then show ?thesis
      unfolding put_all_Cons
      by (auto simp: Cons.IH [OF inj True] map_of_put split: option.splits)
  next
    case False
    with Cons.prems have [simp]: "m = n" by simp
    have "\<And>x. x \<in> set ms \<Longrightarrow> key x \<noteq> key n"
      using False Cons.prems(1) by (auto simp: inj_on_def)
    then have "map_of (put_all key F ms (put (key n) (F n) d)) (key n) =
               map_of (put (key n) (F n) d) (key n)"
      by (rule put_all_other)
    then show ?thesis
      unfolding put_all_Cons by (auto simp: map_of_put split: option.splits)
  qed
qed

lemma put_all_append:
  "put_all key F (xs @ ys) d = put_all key F ys (put_all key F xs d)"
  by (simp add: put_all_def)

lemma put_all_map:
  "put_all key F (map g xs) d = put_all (\<lambda>x. key (g x)) (\<lambda>x. F (g x)) xs d"
  by (simp add: put_all_def foldl_map)

lemma put_all_None:
  assumes "\<And>n. n \<in> set names \<Longrightarrow> F n = None"
  shows "put_all key F names d = d"
  using assms by (induction names arbitrary: d) (simp_all add: put_all_Nil put_all_Cons put_def)

lemma put_all_cong:
  assumes "\<And>n. n \<in> set names \<Longrightarrow> F n = F' n"
  shows "put_all key F names d = put_all key F' names d"
  using assms by (induction names arbitrary: d) (simp_all add: put_all_Nil put_all_Cons)

lemma inj_model_key: "inj (model_key c)"
  by (simp add: inj_def model_key_def)

subsection \<open>The sample documents, compared\<close>

lemma sample_compare:
  "compare sample_python sample_rust =
     \<lparr>missing_in_rust =
        [(''com/Adresse'', ''entire type''),
         (''enum/Sparte'', ''variants: ['' @ [CHR 0x27] @ ''GAS'' @ [CHR 0x27] @ '']'')],
      missing_in_python = [],
      type_mismatches = [''bo/Zaehler.zaehlernummer: Python=string, Rust=integer'']\<rparr>"
  by code_simp

subsection \<open>A side compared with itself\<close>

lemma field_triple_self: "field_triple pp pp fld = []"
  by (simp add: field_triple_def split: option.splits)

lemma model_triples_self: "model_triples ms ms n = []"
  by (simp add: model_triples_def field_triple_self)

lemma model_finding_self: "n \<in> set (dict_keys ms) \<Longrightarrow> model_finding ms ms n = None"
  by (simp add: model_finding_def fields_only_in_def)

lemma enum_finding_self: "n \<in> set (dict_keys es) \<Longrightarrow> enum_finding es es n = None"
  by (simp add: enum_finding_def variants_only_in_def)

lemma compare_models_self: "compare_models c ms ms r = r"
proof -
  have "put_all (model_key c) (model_finding ms ms) (py_sorted (dict_keys ms @ dict_keys ms)) d = d"
    for d
    by (rule put_all_None) (simp add: model_finding_self)
  then show ?thesis
    by (simp add: compare_models_eq model_triples_self entries_def)
qed

lemma compare_enums_self: "compare_enums es es r = r"
proof -
  have "put_all (model_key ''enum'') (enum_finding es es) (py_sorted (dict_keys es @ dict_keys es)) d = d"
    for d
    by (rule put_all_None) (simp add: enum_finding_self)
  then show ?thesis
    by (simp add: compare_enums_eq)
qed

lemma compare_unfold:
  "compare python rust =
     compare_enums (case enums_entry python of None \<Rightarrow> [] | Some e \<Rightarrow> e)
       (case enums_entry rust of None \<Rightarrow> [] | Some e \<Rightarrow> e)
       (compare_models ''com'' (dict_get (categories python) ''com'' [])
          (dict_get (categories rust) ''com'' [])
          (compare_models ''bo'' (dict_get (categories python) ''bo'' [])
             (dict_get (categories rust) ''bo'' []) empty_report))"
  by (simp add: compare_def)

subsection \<open>The list of type mismatches\<close>

lemma concat_map_filter:
  assumes "\<And>x. x \<in> set xs \<Longrightarrow> \<not> P x \<Longrightarrow> f x = []"
  shows "concat (map f xs) = concat (map f (filter P xs))"
  using assms by (induction xs) auto

lemma entries_field_triple:
  "entries c name (field_triple pp rp fld) =
     mismatch_if_clash c name fld (field_type pp fld) (field_type rp fld)"
  by (auto simp: entries_def field_triple_def mismatch_if_clash_def tags_clash_def
      split: option.splits)

lemma entries_concat:
  "entries c name (concat xss) = concat (map (entries c name) xss)"
  by (induction xss) (simp_all add: entries_def)

subsection \<open>The entry of a name in the two dicts\<close>

lemma lookup_missing_in_rust_models:
  assumes "name \<in> set (dict_keys py) \<union> set (dict_keys rs)"
  shows "map_of (missing_in_rust (compare_models c py rs r)) (c @ ''/'' @ name) =
           (case model_finding py rs name of
              None \<Rightarrow> map_of (missing_in_rust r) (c @ ''/'' @ name)
            | Some v \<Rightarrow> Some v)"
proof -
  have "inj_on (model_key c) (set (py_sorted (dict_keys py @ dict_keys rs)))"
    by (rule inj_on_subset [OF inj_model_key]) simp
  moreover have "name \<in> set (py_sorted (dict_keys py @ dict_keys rs))"
    using assms by simp
  ultimately show ?thesis
    using put_all_at [of "model_key c" "py_sorted (dict_keys py @ dict_keys rs)" name
        "model_finding py rs" "missing_in_rust r"]
    by (simp add: compare_models_eq model_key_def cong: option.case_cong)
qed

lemma lookup_missing_in_python_models:
  assumes "name \<in> set (dict_keys py) \<union> set (dict_keys rs)"
  shows "map_of (missing_in_python (compare_models c py rs r)) (c @ ''/'' @ name) =
           (case model_finding rs py name of
              None \<Rightarrow> map_of (missing_in_python r) (c @ ''/'' @ name)
            | Some v \<Rightarrow> Some v)"
proof -
  have "inj_on (model_key c) (set (py_sorted (dict_keys py @ dict_keys rs)))"
    by (rule inj_on_subset [OF inj_model_key]) simp
  moreover have "name \<in> set (py_sorted (dict_keys py @ dict_keys rs))"
    using assms by simp
  ultimately show ?thesis
    using put_all_at [of "model_key c" "py_sorted (dict_keys py @ dict_keys rs)" name
        "model_finding rs py" "missing_in_python r"]
    by (simp add: compare_models_eq model_key_def cong: option.case_cong)
qed

lemma lookup_missing_in_rust_enums:
  assumes "name \<in> set (dict_keys py) \<union> set (dict_keys rs)"
  shows "map_of (missing_in_rust (compare_enums py rs r)) (''enum/'' @ name) =
           (case enum_finding py rs name of
              None \<Rightarrow> map_of (missing_in_rust r) (''enum/'' @ name)
            | Some v \<Rightarrow> Some v)"
proof -
  have "inj_on (model_key ''enum'') (set (py_sorted (dict_keys py @ dict_keys rs)))"
    by (rule inj_on_subset [OF inj_model_key]) simp
  moreover have "name \<in> set (py_sorted (dict_keys py @ dict_keys rs))"
    using assms by simp
  ultimately show ?thesis
    using put_all_at [of "model_key ''enum''" "py_sorted (dict_keys py @ dict_keys rs)" name
        "enum_finding py rs" "missing_in_rust r"]
    by (simp add: compare_enums_eq model_key_def cong: option.case_cong)
qed

lemma lookup_missing_in_python_enums:
  assumes "name \<in> set (dict_keys py) \<union> set (dict_keys rs)"
  shows "map_of (missing_in_python (compare_enums py rs r)) (''enum/'' @ name) =
           (case enum_finding rs py name of
              None \<Rightarrow> map_of (missing_in_python r) (''enum/'' @ name)
            | Some v \<Rightarrow> Some v)"
proof -
  have "inj_on (model_key ''enum'') (set (py_sorted (dict_keys py @ dict_keys rs)))"
    by (rule inj_on_subset [OF inj_model_key]) simp
  moreover have "name \<in> set (py_sorted (dict_keys py @ dict_keys rs))"
    using assms by simp
  ultimately show ?thesis
    using put_all_at [of "model_key ''enum''" "py_sorted (dict_keys py @ dict_keys rs)" name
        "enum_finding rs py" "missing_in_python r"]
    by (simp add: compare_enums_eq model_key_def cong: option.case_cong)
qed

subsection \<open>Agreeing sides give the same report\<close>

lemma field_triple_effective:
  "field_triple pp rp fld =
     (case (effective_type pp fld, effective_type rp fld) of
        (Some a, Some b) \<Rightarrow> if a \<noteq> b then [(fld, a, b)] else []
      | _ \<Rightarrow> [])"
  by (simp add: field_triple_def effective_type_def split: option.splits)

lemma Nil_iff_set_eq: "set xs = set ys \<Longrightarrow> xs = [] \<longleftrightarrow> ys = []"
  by (metis set_empty)

lemma reduced_fields_not_ignored: "fld \<in> set (reduced_fields ms name) \<Longrightarrow> fld \<notin> set ignore_fields"
  by (simp add: reduced_fields_def)

lemma model_finding_agree:
  assumes "models_agree a a'" and "models_agree b b'"
  shows "model_finding a b n = model_finding a' b' n"
proof -
  have keys: "set (dict_keys a) = set (dict_keys a')" "set (dict_keys b) = set (dict_keys b')"
    using assms by (simp_all add: models_agree_def)
  have "set (fields_only_in a b n) = set (fields_only_in a' b' n)"
    using assms by (simp add: fields_only_in_def models_agree_def)
  then have "py_sorted (fields_only_in a b n) = py_sorted (fields_only_in a' b' n)"
    and "fields_only_in a b n = [] \<longleftrightarrow> fields_only_in a' b' n = []"
    by (rule py_sorted_cong, rule Nil_iff_set_eq)
  then show ?thesis
    by (simp add: model_finding_def keys)
qed

lemma model_triples_agree:
  assumes "models_agree a a'" and "models_agree b b'"
  shows "model_triples a b n = model_triples a' b' n"
proof -
  have keys: "set (dict_keys a) = set (dict_keys a')" "set (dict_keys b) = set (dict_keys b')"
    using assms by (simp_all add: models_agree_def)
  have "set (filter (\<lambda>f. f \<in> set (reduced_fields b n)) (reduced_fields a n)) =
        set (filter (\<lambda>f. f \<in> set (reduced_fields b' n)) (reduced_fields a' n))"
    using assms by (simp add: models_agree_def)
  then have common: "common_fields a b n = common_fields a' b' n"
    unfolding common_fields_def by (rule py_sorted_cong)
  have "field_triple (get_properties a n) (get_properties b n) fld =
        field_triple (get_properties a' n) (get_properties b' n) fld"
    if "fld \<in> set (common_fields a' b' n)" for fld
  proof -
    from that have "fld \<notin> set ignore_fields"
      by (auto simp: common_fields_def dest: reduced_fields_not_ignored)
    with assms show ?thesis
      by (simp add: field_triple_effective models_agree_def)
  qed
  then have "map (field_triple (get_properties a n) (get_properties b n)) (common_fields a' b' n) =
             map (field_triple (get_properties a' n) (get_properties b' n)) (common_fields a' b' n)"
    by (intro map_cong refl)
  then show ?thesis
    unfolding model_triples_def keys common by (simp only:)
qed

lemma compare_models_agree:
  assumes "models_agree py py'" and "models_agree rs rs'"
  shows "compare_models c py rs r = compare_models c py' rs' r"
proof -
  have "set (dict_keys py @ dict_keys rs) = set (dict_keys py' @ dict_keys rs')"
    using assms by (simp add: models_agree_def)
  then have names: "py_sorted (dict_keys py @ dict_keys rs) = py_sorted (dict_keys py' @ dict_keys rs')"
    by (rule py_sorted_cong)
  have "model_finding py rs = model_finding py' rs'" "model_finding rs py = model_finding rs' py'"
    "model_triples py rs = model_triples py' rs'"
    using assms by (auto simp: fun_eq_iff model_finding_agree model_triples_agree)
  then show ?thesis
    by (simp add: compare_models_eq names)
qed

lemma enum_finding_agree:
  assumes "enums_agree a a'" and "enums_agree b b'"
  shows "enum_finding a b n = enum_finding a' b' n"
proof -
  have keys: "set (dict_keys a) = set (dict_keys a')" "set (dict_keys b) = set (dict_keys b')"
    using assms by (simp_all add: enums_agree_def)
  have "set (variants_only_in a b n) = set (variants_only_in a' b' n)"
    using assms by (simp add: variants_only_in_def enums_agree_def)
  then have "py_sorted (variants_only_in a b n) = py_sorted (variants_only_in a' b' n)"
    and "variants_only_in a b n = [] \<longleftrightarrow> variants_only_in a' b' n = []"
    by (rule py_sorted_cong, rule Nil_iff_set_eq)
  then show ?thesis
    by (simp add: enum_finding_def keys)
qed

lemma compare_enums_agree:
  assumes "enums_agree py py'" and "enums_agree rs rs'"
  shows "compare_enums py rs r = compare_enums py' rs' r"
proof -
  have "set (dict_keys py @ dict_keys rs) = set (dict_keys py' @ dict_keys rs')"
    using assms by (simp add: enums_agree_def)
  then have names: "py_sorted (dict_keys py @ dict_keys rs) = py_sorted (dict_keys py' @ dict_keys rs')"
    by (rule py_sorted_cong)
  have "enum_finding py rs = enum_finding py' rs'" "enum_finding rs py = enum_finding rs' py'"
    using assms by (auto simp: fun_eq_iff enum_finding_agree)
  then show ?thesis
    by (simp add: compare_enums_eq names)
qed

lemma models_agree_refl: "models_agree ms ms"
  by (simp add: models_agree_def)

lemma enums_agree_refl: "enums_agree es es"
  by (simp add: enums_agree_def)

subsection \<open>Changes that keep the sides agreeing\<close>

lemma set_reduced_fields:
  "set (reduced_fields ms name) =
     {f. f \<notin> set ignore_fields \<and> map_of (get_properties ms name) f \<noteq> None}"
  by (auto simp: reduced_fields_def dict_keys_def map_of_eq_None_iff)

lemma models_agreeI:
  assumes "set (dict_keys ms) = set (dict_keys ms')"
    and "\<And>name fld. fld \<notin> set ignore_fields \<Longrightarrow>
           map_of (get_properties ms name) fld = None \<longleftrightarrow>
           map_of (get_properties ms' name) fld = None"
    and "\<And>name fld. fld \<notin> set ignore_fields \<Longrightarrow>
           effective_type (get_properties ms name) fld =
           effective_type (get_properties ms' name) fld"
  shows "models_agree ms ms'"
  unfolding models_agree_def set_reduced_fields
  by (intro conjI allI impI Collect_cong) (simp_all add: assms cong: conj_cong)

lemma dict_keys_map_entry: "set (dict_keys (AList.map_entry k f d)) = set (dict_keys d)"
  by (simp add: dict_keys_def dom_map_entry)

lemma get_properties_set_field:
  "get_properties (set_field ms name fld tag) n =
     (if n = name \<and> name \<in> set (dict_keys ms)
      then AList.update fld tag (get_properties ms name) else get_properties ms n)"
  by (auto simp: get_properties_def set_field_def map_of_map_entry dict_keys_def
      map_of_eq_None_iff [symmetric] split: option.splits)

lemma get_properties_del_field:
  "get_properties (del_field ms name fld) n =
     (if n = name then AList.delete fld (get_properties ms name) else get_properties ms n)"
  by (auto simp: get_properties_def del_field_def map_of_map_entry split: option.splits)

lemma models_agree_set_field:
  assumes "fld \<in> set ignore_fields"
  shows "models_agree (set_field ms name fld tag) ms"
proof (rule models_agreeI)
  show "set (dict_keys (set_field ms name fld tag)) = set (dict_keys ms)"
    by (simp add: set_field_def dict_keys_map_entry)
next
  fix n f assume "f \<notin> set ignore_fields"
  with assms have "f \<noteq> fld" by auto
  then show "map_of (get_properties (set_field ms name fld tag) n) f = None \<longleftrightarrow>
             map_of (get_properties ms n) f = None"
    and "effective_type (get_properties (set_field ms name fld tag) n) f =
         effective_type (get_properties ms n) f"
    by (simp_all add: get_properties_set_field update_conv' effective_type_def field_type_def)
qed

lemma models_agree_del_field:
  assumes "fld \<in> set ignore_fields"
  shows "models_agree (del_field ms name fld) ms"
proof (rule models_agreeI)
  show "set (dict_keys (del_field ms name fld)) = set (dict_keys ms)"
    by (simp add: del_field_def dict_keys_map_entry)
next
  fix n f assume "f \<notin> set ignore_fields"
  with assms have "f \<noteq> fld" by auto
  then show "map_of (get_properties (del_field ms name fld) n) f = None \<longleftrightarrow>
             map_of (get_properties ms n) f = None"
    and "effective_type (get_properties (del_field ms name fld) n) f =
         effective_type (get_properties ms n) f"
    by (simp_all add: get_properties_del_field delete_conv' effective_type_def field_type_def)
qed

lemma dict_get_map_entry:
  "dict_get (AList.map_entry k f d) k' [] =
     (if k' = k \<and> k \<in> set (dict_keys d) then f (dict_get d k []) else dict_get d k' [])"
proof -
  have "k \<in> set (dict_keys d) \<longleftrightarrow> map_of d k \<noteq> None"
    by (simp add: dict_keys_def map_of_eq_None_iff)
  then show ?thesis
    by (auto simp: dict_get_def map_of_map_entry split: option.splits)
qed

lemma enums_entry_add_field: "enums_entry (add_field s category name fld tag) = enums_entry s"
  by (simp add: add_field_def)

lemma enums_entry_remove_field: "enums_entry (remove_field s category name fld) = enums_entry s"
  by (simp add: remove_field_def)

lemma models_agree_add_field:
  assumes "fld \<in> set ignore_fields"
  shows "models_agree (dict_get (categories (add_field s category name fld tag)) c [])
           (dict_get (categories s) c [])"
  using assms
  by (simp add: add_field_def dict_get_map_entry models_agree_set_field models_agree_refl)

lemma models_agree_remove_field:
  assumes "fld \<in> set ignore_fields"
  shows "models_agree (dict_get (categories (remove_field s category name fld)) c [])
           (dict_get (categories s) c [])"
  using assms
  by (simp add: remove_field_def dict_get_map_entry models_agree_del_field models_agree_refl)

lemma compare_agree:
  assumes "\<And>c. models_agree (dict_get (categories A) c []) (dict_get (categories A') c [])"
    and "\<And>c. models_agree (dict_get (categories B) c []) (dict_get (categories B') c [])"
    and "enums_agree (case enums_entry A of None \<Rightarrow> [] | Some e \<Rightarrow> e)
           (case enums_entry A' of None \<Rightarrow> [] | Some e \<Rightarrow> e)"
    and "enums_agree (case enums_entry B of None \<Rightarrow> [] | Some e \<Rightarrow> e)
           (case enums_entry B' of None \<Rightarrow> [] | Some e \<Rightarrow> e)"
  shows "compare A B = compare A' B'"
  unfolding compare_def Let_def
  by (simp add: compare_models_agree [OF assms(1) assms(2)] compare_enums_agree [OF assms(3) assms(4)])

subsection \<open>The same contents agree\<close>

lemma dict_keys_drop_empty_tags: "dict_keys (drop_empty_tags ms) = dict_keys ms"
  by (induction ms) (auto simp: drop_empty_tags_def dict_keys_def)

lemma map_of_retag:
  "map_of (map (\<lambda>(fld, t). (fld, h t)) p) f = map_option h (map_of p f)"
  by (simp add: map_of_map)

lemma get_properties_drop_empty_tags:
  "get_properties (drop_empty_tags ms) n =
     map (\<lambda>(fld, t). (fld, if t = Some [] then None else t)) (get_properties ms n)"
proof -
  have "map_of (drop_empty_tags ms) n =
        map_option (map_option (map (\<lambda>(fld, t). (fld, if t = Some [] then None else t))))
          (map_of ms n)"
    unfolding drop_empty_tags_def by (simp add: map_of_map)
  then show ?thesis
    by (simp add: get_properties_def split: option.splits)
qed

lemma models_agree_drop_empty_tags: "models_agree (drop_empty_tags ms) ms"
proof (rule models_agreeI)
  show "set (dict_keys (drop_empty_tags ms)) = set (dict_keys ms)"
    by (simp add: dict_keys_drop_empty_tags)
next
  fix n f
  show "map_of (get_properties (drop_empty_tags ms) n) f = None \<longleftrightarrow>
        map_of (get_properties ms n) f = None"
    by (simp add: get_properties_drop_empty_tags map_of_retag)
  show "effective_type (get_properties (drop_empty_tags ms) n) f =
        effective_type (get_properties ms n) f"
    by (simp add: get_properties_drop_empty_tags map_of_retag effective_type_def field_type_def
        split: option.splits)
qed

lemma dict_keys_dom: "set (dict_keys d) = dom (map_of d)"
  by (simp add: dict_keys_def dom_map_of_conv_image_fst)

lemma rel_option_dom:
  assumes "\<And>k. rel_option R (m k) (m' k)"
  shows "dom m = dom m'"
proof -
  have "m k = None \<longleftrightarrow> m' k = None" for k
    using assms [of k] by (cases "m k"; cases "m' k") simp_all
  then show ?thesis by (auto simp: dom_def)
qed

lemma same_models_get_properties:
  assumes "same_models ms ms'"
  shows "map_of (get_properties ms n) = map_of (get_properties ms' n)"
proof -
  have "rel_option (rel_option same_props) (map_of ms n) (map_of ms' n)"
    using assms by (simp add: same_models_def)
  then show ?thesis
    by (cases "map_of ms n"; cases "map_of ms' n")
       (auto simp: get_properties_def same_props_def elim: option.rel_cases)
qed

lemma models_agree_same_models:
  assumes "same_models ms ms'"
  shows "models_agree ms ms'"
proof (rule models_agreeI)
  have "rel_option (rel_option same_props) (map_of ms n) (map_of ms' n)" for n
    using assms by (simp add: same_models_def)
  then show "set (dict_keys ms) = set (dict_keys ms')"
    unfolding dict_keys_dom by (rule rel_option_dom)
qed (simp_all add: same_models_get_properties [OF assms] effective_type_def field_type_def)

lemma enums_agree_same_enums:
  assumes "same_enums es es'"
  shows "enums_agree es es'"
proof -
  have rel: "rel_option (\<lambda>vs vs'. set vs = set vs') (map_of es n) (map_of es' n)" for n
    using assms by (simp add: same_enums_def)
  have "set (dict_keys es) = set (dict_keys es')"
    unfolding dict_keys_dom by (rule rel_option_dom) (rule rel)
  moreover have "set (dict_get es n []) = set (dict_get es' n [])" for n
    using rel [of n] by (cases "map_of es n"; cases "map_of es' n") (simp_all add: dict_get_def)
  ultimately show ?thesis by (simp add: enums_agree_def)
qed

lemma same_snapshot_models:
  assumes "same_snapshot s s'"
  shows "models_agree (dict_get (categories s) c []) (dict_get (categories s') c [])"
proof -
  have "rel_option same_models (map_of (categories s) c) (map_of (categories s') c)"
    using assms by (simp add: same_snapshot_def)
  then show ?thesis
    by (cases "map_of (categories s) c"; cases "map_of (categories s') c")
       (simp_all add: dict_get_def models_agree_refl models_agree_same_models)
qed

lemma same_snapshot_enums:
  assumes "same_snapshot s s'"
  shows "enums_agree (case enums_entry s of None \<Rightarrow> [] | Some e \<Rightarrow> e)
           (case enums_entry s' of None \<Rightarrow> [] | Some e \<Rightarrow> e)"
proof -
  have "rel_option same_enums (enums_entry s) (enums_entry s')"
    using assms by (simp add: same_snapshot_def)
  then show ?thesis
    by (cases "enums_entry s"; cases "enums_entry s'")
       (simp_all add: enums_agree_refl enums_agree_same_enums)
qed

lemma same_shuffled: "same_snapshot sample_python shuffled_python"
  by (auto simp: same_snapshot_def sample_python_def shuffled_python_def same_models_def
      same_enums_def same_props_def)

subsection \<open>The two sides exchanged\<close>

lemma all_names_commute:
  "py_sorted (dict_keys rs @ dict_keys py) = py_sorted (dict_keys py @ dict_keys rs)"
  by (rule py_sorted_cong) auto

lemma field_triple_swap:
  "field_triple rp pp fld = map (\<lambda>(fld, a, b). (fld, b, a)) (field_triple pp rp fld)"
  by (auto simp: field_triple_def split: option.splits)

lemma common_fields_commute: "common_fields rs py n = common_fields py rs n"
  unfolding common_fields_def by (rule py_sorted_cong) auto

lemma model_triples_swap:
  "model_triples rs py n = map (\<lambda>(fld, a, b). (fld, b, a)) (model_triples py rs n)"
proof -
  have "concat (map (field_triple (get_properties rs n) (get_properties py n)) xs) =
        map (\<lambda>(fld, a, b). (fld, b, a))
          (concat (map (field_triple (get_properties py n) (get_properties rs n)) xs))" for xs
    by (induction xs) (simp_all add: field_triple_swap [of "get_properties rs n"])
  then show ?thesis
    by (auto simp: model_triples_def common_fields_commute)
qed

lemma entries_tagged_gen:
  "concat (map (\<lambda>n. entries c n (T n)) ns) =
     map (\<lambda>(c, n, fld, a, b). mismatch_entry c n fld a b)
       (concat (map (\<lambda>n. map (\<lambda>(fld, a, b). (c, n, fld, a, b)) (T n)) ns))"
  by (induction ns) (simp_all add: entries_def case_prod_unfold comp_def)

lemma entries_tagged_swapped_gen:
  "concat (map (\<lambda>n. entries c n (map (\<lambda>(fld, a, b). (fld, b, a)) (T n))) ns) =
     map (\<lambda>(c, n, fld, a, b). mismatch_entry c n fld b a)
       (concat (map (\<lambda>n. map (\<lambda>(fld, a, b). (c, n, fld, a, b)) (T n)) ns))"
  by (induction ns) (simp_all add: entries_def case_prod_unfold comp_def)

lemma entries_tagged:
  "concat (map (\<lambda>n. entries c n (model_triples py rs n)) (py_sorted (dict_keys py @ dict_keys rs))) =
     map (\<lambda>(c, n, fld, a, b). mismatch_entry c n fld a b) (tagged_triples c py rs)"
  unfolding tagged_triples_def by (rule entries_tagged_gen)

lemma entries_tagged_swapped:
  "concat (map (\<lambda>n. entries c n (model_triples rs py n)) (py_sorted (dict_keys rs @ dict_keys py))) =
     map (\<lambda>(c, n, fld, a, b). mismatch_entry c n fld b a) (tagged_triples c py rs)"
  unfolding tagged_triples_def all_names_commute [of rs py] model_triples_swap [of rs py]
  by (rule entries_tagged_swapped_gen)

lemma compare_eq:
  "compare A B =
     \<lparr>missing_in_rust =
        put_all (model_key ''enum'')
          (enum_finding (case enums_entry A of None \<Rightarrow> [] | Some e \<Rightarrow> e)
             (case enums_entry B of None \<Rightarrow> [] | Some e \<Rightarrow> e))
          (py_sorted (dict_keys (case enums_entry A of None \<Rightarrow> [] | Some e \<Rightarrow> e)
             @ dict_keys (case enums_entry B of None \<Rightarrow> [] | Some e \<Rightarrow> e)))
          (put_all (model_key ''com'')
             (model_finding (dict_get (categories A) ''com'' []) (dict_get (categories B) ''com'' []))
             (py_sorted (dict_keys (dict_get (categories A) ''com'' [])
                @ dict_keys (dict_get (categories B) ''com'' [])))
             (put_all (model_key ''bo'')
                (model_finding (dict_get (categories A) ''bo'' []) (dict_get (categories B) ''bo'' []))
                (py_sorted (dict_keys (dict_get (categories A) ''bo'' [])
                   @ dict_keys (dict_get (categories B) ''bo'' [])))
                [])),
      missing_in_python =
        put_all (model_key ''enum'')
          (enum_finding (case enums_entry B of None \<Rightarrow> [] | Some e \<Rightarrow> e)
             (case enums_entry A of None \<Rightarrow> [] | Some e \<Rightarrow> e))
          (py_sorted (dict_keys (case enums_entry A of None \<Rightarrow> [] | Some e \<Rightarrow> e)
             @ dict_keys (case enums_entry B of None \<Rightarrow> [] | Some e \<Rightarrow> e)))
          (put_all (model_key ''com'')
             (model_finding (dict_get (categories B) ''com'' []) (dict_get (categories A) ''com'' []))
             (py_sorted (dict_keys (dict_get (categories A) ''com'' [])
                @ dict_keys (dict_get (categories B) ''com'' [])))
             (put_all (model_key ''bo'')
                (model_finding (dict_get (categories B) ''bo'' []) (dict_get (categories A) ''bo'' []))
                (py_sorted (dict_keys (dict_get (categories A) ''bo'' [])
                   @ dict_keys (dict_get (categories B) ''bo'' [])))
                [])),
      type_mismatches =
        map (\<lambda>(c, n, fld, a, b). mismatch_entry c n fld a b)
          (tagged_triples ''bo'' (dict_get (categories A) ''bo'' []) (dict_get (categories B) ''bo'' [])
           @ tagged_triples ''com'' (dict_get (categories A) ''com'' [])
               (dict_get (categories B) ''com'' []))\<rparr>"
  by (simp add: compare_unfold compare_enums_eq compare_models_eq empty_report_def
      entries_tagged)

lemma sample_compare_swapped:
  "compare sample_rust sample_python =
     \<lparr>missing_in_rust = [],
      missing_in_python =
        [(''com/Adresse'', ''entire type''),
         (''enum/Sparte'', ''variants: ['' @ [CHR 0x27] @ ''GAS'' @ [CHR 0x27] @ '']'')],
      type_mismatches = [''bo/Zaehler.zaehlernummer: Python=integer, Rust=string'']\<rparr>"
  by code_simp

subsection \<open>A field added on the Python side\<close>

lemma dict_keys_set_field: "set (dict_keys (set_field ms name fld tag)) = set (dict_keys ms)"
  by (simp add: set_field_def dict_keys_map_entry)

lemma set_reduced_fields_set_field:
  assumes "name \<in> set (dict_keys ms)" and "fld \<notin> set ignore_fields"
  shows "set (reduced_fields (set_field ms name fld tag) n) =
           (if n = name then insert fld (set (reduced_fields ms name))
            else set (reduced_fields ms n))"
  using assms by (auto simp: set_reduced_fields get_properties_set_field update_conv')

lemma field_type_set_field:
  assumes "f \<noteq> fld"
  shows "field_type (get_properties (set_field ms name fld tag) n) f =
         field_type (get_properties ms n) f"
  using assms by (simp add: field_type_def get_properties_set_field update_conv')

lemma model_finding_rust_side_set_field:
  assumes "name \<in> set (dict_keys py)" and "fld \<notin> set ignore_fields"
    and "fld \<notin> set (reduced_fields rs name)"
  shows "model_finding rs (set_field py name fld tag) n = model_finding rs py n"
proof -
  have "fields_only_in rs (set_field py name fld tag) n = fields_only_in rs py n"
    unfolding fields_only_in_def
    by (rule filter_cong [OF refl])
       (use assms in \<open>auto simp: set_reduced_fields_set_field\<close>)
  then show ?thesis
    by (simp add: model_finding_def dict_keys_set_field)
qed

lemma model_triples_set_field:
  assumes "name \<in> set (dict_keys py)" and "fld \<notin> set ignore_fields"
    and "fld \<notin> set (reduced_fields rs name)"
  shows "model_triples (set_field py name fld tag) rs n = model_triples py rs n"
proof -
  have "set (filter (\<lambda>f. f \<in> set (reduced_fields rs n)) (reduced_fields (set_field py name fld tag) n)) =
        set (filter (\<lambda>f. f \<in> set (reduced_fields rs n)) (reduced_fields py n))"
    using assms by (auto simp: set_reduced_fields_set_field split: if_splits)
  then have common: "common_fields (set_field py name fld tag) rs n = common_fields py rs n"
    unfolding common_fields_def by (rule py_sorted_cong)
  have "field_triple (get_properties (set_field py name fld tag) n) (get_properties rs n) f =
        field_triple (get_properties py n) (get_properties rs n) f"
    if "f \<in> set (common_fields py rs n)" for f
  proof (cases "n = name")
    case True
    with that assms(3) have "f \<noteq> fld" by (auto simp: common_fields_def)
    then show ?thesis by (simp add: field_triple_def field_type_set_field)
  next
    case False
    then show ?thesis by (simp add: get_properties_set_field)
  qed
  then have "map (field_triple (get_properties (set_field py name fld tag) n) (get_properties rs n))
               (common_fields py rs n) =
             map (field_triple (get_properties py n) (get_properties rs n)) (common_fields py rs n)"
    by (intro map_cong refl)
  then show ?thesis
    unfolding model_triples_def common dict_keys_set_field by (simp only:)
qed

lemma model_finding_set_field_other:
  assumes "n \<noteq> name"
  shows "model_finding (set_field py name fld tag) rs n = model_finding py rs n"
  using assms
  by (simp add: model_finding_def fields_only_in_def reduced_fields_def get_properties_set_field
      dict_keys_set_field)

lemma set_fields_only_in_set_field:
  assumes "name \<in> set (dict_keys py)" and "fld \<notin> set ignore_fields"
    and "fld \<notin> set (reduced_fields rs name)"
  shows "set (fields_only_in (set_field py name fld tag) rs name) =
           insert fld (set (fields_only_in py rs name))"
  using assms by (auto simp: fields_only_in_def set_reduced_fields_set_field)

lemma model_finding_set_field_at:
  assumes "name \<in> set (dict_keys py)" and "name \<in> set (dict_keys rs)"
    and "fld \<notin> set ignore_fields" and "fld \<notin> set (reduced_fields rs name)"
  shows "model_finding (set_field py name fld tag) rs name =
           Some (''fields: '' @ py_repr_list (py_sorted (fld # fields_only_in py rs name)))"
proof -
  have s: "set (fields_only_in (set_field py name fld tag) rs name) =
           set (fld # fields_only_in py rs name)"
    using assms by (simp add: set_fields_only_in_set_field)
  then have "fields_only_in (set_field py name fld tag) rs name \<noteq> []"
    by auto
  moreover have "py_sorted (fields_only_in (set_field py name fld tag) rs name) =
                 py_sorted (fld # fields_only_in py rs name)"
    using s by (rule py_sorted_cong)
  ultimately show ?thesis
    using assms by (simp add: model_finding_def dict_keys_set_field)
qed

lemma categories_add_field:
  "dict_get (categories (add_field A category name fld tag)) c [] =
     (if c = category then set_field (dict_get (categories A) c []) name fld tag
      else dict_get (categories A) c [])"
proof (cases "category \<in> set (dict_keys (categories A))")
  case True
  then show ?thesis by (simp add: add_field_def dict_get_map_entry)
next
  case False
  then have "dict_get (categories A) category [] = []"
    by (simp add: dict_get_def dict_keys_def map_of_eq_None_iff [THEN iffD2])
  with False show ?thesis
    by (simp add: add_field_def dict_get_map_entry set_field_def)
qed

subsection \<open>What a pass over one category depends on\<close>

lemma compare_models_python_side:
  assumes "set (dict_keys py') = set (dict_keys py)"
    and "\<And>n. model_finding rs py' n = model_finding rs py n"
    and "\<And>n. model_triples py' rs n = model_triples py rs n"
    and "missing_in_python r' = missing_in_python r"
    and "type_mismatches r' = type_mismatches r"
  shows "missing_in_python (compare_models c py' rs r') = missing_in_python (compare_models c py rs r)"
    and "type_mismatches (compare_models c py' rs r') = type_mismatches (compare_models c py rs r)"
proof -
  have "set (dict_keys py' @ dict_keys rs) = set (dict_keys py @ dict_keys rs)"
    using assms(1) by simp
  then have names: "py_sorted (dict_keys py' @ dict_keys rs) = py_sorted (dict_keys py @ dict_keys rs)"
    by (rule py_sorted_cong)
  have "model_finding rs py' = model_finding rs py" "model_triples py' rs = model_triples py rs"
    using assms(2,3) by (simp_all add: fun_eq_iff)
  then show
    "missing_in_python (compare_models c py' rs r') = missing_in_python (compare_models c py rs r)"
    "type_mismatches (compare_models c py' rs r') = type_mismatches (compare_models c py rs r)"
    by (simp_all add: compare_models_eq names assms(4,5))
qed

lemma compare_models_rust_side_at:
  assumes "set (dict_keys py') = set (dict_keys py)"
    and "\<And>n. model_key c n = k \<Longrightarrow> model_finding py' rs n = model_finding py rs n"
    and "map_of (missing_in_rust r') k = map_of (missing_in_rust r) k"
  shows "map_of (missing_in_rust (compare_models c py' rs r')) k =
         map_of (missing_in_rust (compare_models c py rs r)) k"
proof -
  have "set (dict_keys py' @ dict_keys rs) = set (dict_keys py @ dict_keys rs)"
    using assms(1) by simp
  then have names: "py_sorted (dict_keys py' @ dict_keys rs) = py_sorted (dict_keys py @ dict_keys rs)"
    by (rule py_sorted_cong)
  show ?thesis
    unfolding compare_models_eq names DriftReport.simps
    by (rule put_all_cong_at) (simp_all add: assms)
qed

lemma compare_enums_rust_side_at:
  assumes "map_of (missing_in_rust r') k = map_of (missing_in_rust r) k"
  shows "map_of (missing_in_rust (compare_enums py rs r')) k =
         map_of (missing_in_rust (compare_enums py rs r)) k"
  unfolding compare_enums_eq DriftReport.simps
  by (rule put_all_cong_at) (simp_all add: assms)

lemma compare_enums_python_side:
  assumes "missing_in_python r' = missing_in_python r"
    and "type_mismatches r' = type_mismatches r"
  shows "missing_in_python (compare_enums py rs r') = missing_in_python (compare_enums py rs r)"
    and "type_mismatches (compare_enums py rs r') = type_mismatches (compare_enums py rs r)"
  by (simp_all add: compare_enums_eq assms)

lemma compare_models_rust_side_other:
  assumes "\<And>n. model_key c n \<noteq> k"
  shows "map_of (missing_in_rust (compare_models c py rs r)) k = map_of (missing_in_rust r) k"
  unfolding compare_models_eq DriftReport.simps
  by (rule put_all_other) (rule assms)

lemma compare_enums_rust_side_other:
  assumes "\<And>n. model_key ''enum'' n \<noteq> k"
  shows "map_of (missing_in_rust (compare_enums py rs r)) k = map_of (missing_in_rust r) k"
  unfolding compare_enums_eq DriftReport.simps
  by (rule put_all_other) (rule assms)

lemma model_key_distinct:
  "model_key ''com'' n \<noteq> model_key ''bo'' m" "model_key ''enum'' n \<noteq> model_key ''bo'' m"
  "model_key ''bo'' n \<noteq> model_key ''com'' m" "model_key ''enum'' n \<noteq> model_key ''com'' m"
  by (simp_all add: model_key_def)

lemma lookup_compare_rust:
  assumes "c = ''bo'' \<or> c = ''com''"
    and "name \<in> set (dict_keys (dict_get (categories A) c []))
           \<union> set (dict_keys (dict_get (categories B) c []))"
  shows "map_of (missing_in_rust (compare A B)) (c @ ''/'' @ name) =
           model_finding (dict_get (categories A) c []) (dict_get (categories B) c []) name"
proof -
  have key: "x @ ''/'' @ name = model_key x name" for x
    by (simp add: model_key_def)
  from assms(1) show ?thesis
  proof
    assume c: "c = ''bo''"
    have "map_of (missing_in_rust (compare A B)) (model_key ''bo'' name) =
          map_of (missing_in_rust
            (compare_models ''bo'' (dict_get (categories A) ''bo'' [])
               (dict_get (categories B) ''bo'' []) empty_report)) (model_key ''bo'' name)"
      unfolding compare_unfold
      by (simp add: compare_enums_rust_side_other compare_models_rust_side_other model_key_distinct)
    also have "\<dots> = model_finding (dict_get (categories A) ''bo'' [])
                       (dict_get (categories B) ''bo'' []) name"
      using lookup_missing_in_rust_models [of name "dict_get (categories A) ''bo'' []"
          "dict_get (categories B) ''bo'' []" "''bo''" empty_report] assms(2)
      by (simp add: c model_key_def empty_report_def split: option.splits)
    finally show ?thesis unfolding key c .
  next
    assume c: "c = ''com''"
    have "map_of (missing_in_rust (compare A B)) (model_key ''com'' name) =
          map_of (missing_in_rust
            (compare_models ''com'' (dict_get (categories A) ''com'' [])
               (dict_get (categories B) ''com'' [])
               (compare_models ''bo'' (dict_get (categories A) ''bo'' [])
                  (dict_get (categories B) ''bo'' []) empty_report))) (model_key ''com'' name)"
      unfolding compare_unfold
      by (simp add: compare_enums_rust_side_other model_key_distinct)
    also have "\<dots> = (case model_finding (dict_get (categories A) ''com'' [])
                       (dict_get (categories B) ''com'' []) name of
                   None \<Rightarrow> map_of (missing_in_rust
                      (compare_models ''bo'' (dict_get (categories A) ''bo'' [])
                        (dict_get (categories B) ''bo'' []) empty_report)) (model_key ''com'' name)
                 | Some v \<Rightarrow> Some v)"
      using lookup_missing_in_rust_models [of name "dict_get (categories A) ''com'' []"
          "dict_get (categories B) ''com'' []" "''com''"] assms(2)
      by (simp add: c model_key_def cong: option.case_cong)
    also have "\<dots> = model_finding (dict_get (categories A) ''com'' [])
                       (dict_get (categories B) ''com'' []) name"
      by (simp add: compare_models_rust_side_other model_key_distinct empty_report_def
          split: option.splits)
    finally show ?thesis unfolding key c .
  qed
qed

subsection \<open>The subscripts of the loop over the common fields\<close>

lemma common_fields_are_keys:
  assumes "fld \<in> set (common_fields py rs name)"
  shows "map_of (get_properties py name) fld \<noteq> None"
    and "map_of (get_properties rs name) fld \<noteq> None"
  using assms by (simp_all add: common_fields_def set_reduced_fields)

subsection \<open>A field added where it cannot show\<close>

lemma reduced_fields_set_field_other:
  assumes "n \<noteq> name"
  shows "reduced_fields (set_field ms name fld tag) n = reduced_fields ms n"
  using assms by (simp add: reduced_fields_def get_properties_set_field)

lemma compare_models_set_field_absent:
  assumes "name \<notin> set (dict_keys rs)"
  shows "compare_models c (set_field py name fld tag) rs r = compare_models c py rs r"
proof -
  let ?py' = "set_field py name fld tag"
  have "set (dict_keys ?py' @ dict_keys rs) = set (dict_keys py @ dict_keys rs)"
    by (simp add: dict_keys_set_field)
  then have names: "py_sorted (dict_keys ?py' @ dict_keys rs) = py_sorted (dict_keys py @ dict_keys rs)"
    by (rule py_sorted_cong)
  have 1: "model_finding ?py' rs n = model_finding py rs n" for n
  proof (cases "n = name")
    case True
    with assms show ?thesis by (simp add: model_finding_def)
  next
    case False
    then show ?thesis by (rule model_finding_set_field_other)
  qed
  have 2: "model_finding rs ?py' n = model_finding rs py n" for n
  proof (cases "n = name")
    case True
    with assms show ?thesis by (simp add: model_finding_def dict_keys_set_field)
  next
    case False
    then show ?thesis
      by (simp add: model_finding_def dict_keys_set_field fields_only_in_def
          reduced_fields_set_field_other)
  qed
  have 3: "model_triples ?py' rs n = model_triples py rs n" for n
  proof (cases "n = name")
    case True
    with assms show ?thesis by (simp add: model_triples_def)
  next
    case False
    then show ?thesis
      by (simp add: model_triples_def dict_keys_set_field common_fields_def
          reduced_fields_set_field_other get_properties_set_field)
  qed
  have "model_finding ?py' rs = model_finding py rs" "model_finding rs ?py' = model_finding rs py"
    "model_triples ?py' rs = model_triples py rs"
    using 1 2 3 by (simp_all add: fun_eq_iff)
  then show ?thesis
    by (simp add: compare_models_eq names)
qed

lemma compare_add_field_absent:
  assumes "name \<notin> set (dict_keys (dict_get (categories B) category []))"
  shows "compare (add_field A category name fld tag) B = compare A B"
proof -
  have "compare_models c (dict_get (categories (add_field A category name fld tag)) c [])
          (dict_get (categories B) c []) r =
        compare_models c (dict_get (categories A) c []) (dict_get (categories B) c []) r" for c r
    using assms by (simp add: categories_add_field compare_models_set_field_absent)
  then show ?thesis
    by (simp add: compare_unfold enums_entry_add_field)
qed

lemma compare_add_field_other_category:
  assumes "category \<noteq> ''bo''" and "category \<noteq> ''com''"
  shows "compare (add_field A category name fld tag) B = compare A B"
  using assms by (simp add: compare_unfold enums_entry_add_field categories_add_field)

lemma compare_add_field_ignored:
  assumes "fld \<in> set ignore_fields"
  shows "compare (add_field A category name fld tag) B = compare A B"
  by (rule compare_agree)
     (simp_all add: models_agree_add_field [OF assms] models_agree_refl enums_agree_refl
        enums_entry_add_field)

subsection \<open>A field added to a type that both sides have\<close>

lemma added_field_in_both:
  assumes "category = ''bo'' \<or> category = ''com''"
    and "name \<in> set (dict_keys (dict_get (categories A) category []))"
    and "name \<in> set (dict_keys (dict_get (categories B) category []))"
    and "fld \<notin> set ignore_fields"
    and "fld \<notin> set (dict_keys (get_properties (dict_get (categories A) category []) name))"
    and "fld \<notin> set (dict_keys (get_properties (dict_get (categories B) category []) name))"
  shows "missing_in_python (compare (add_field A category name fld tag) B) =
           missing_in_python (compare A B)
    \<and> type_mismatches (compare (add_field A category name fld tag) B) =
           type_mismatches (compare A B)
    \<and> (\<forall>k. k \<noteq> category @ ''/'' @ name \<longrightarrow>
           map_of (missing_in_rust (compare (add_field A category name fld tag) B)) k =
           map_of (missing_in_rust (compare A B)) k)
    \<and> map_of (missing_in_rust (compare A B)) (category @ ''/'' @ name) =
         (if fields_only_in (dict_get (categories A) category [])
               (dict_get (categories B) category []) name = []
          then None
          else Some (''fields: '' @ py_repr_list (py_sorted
                  (fields_only_in (dict_get (categories A) category [])
                     (dict_get (categories B) category []) name))))
    \<and> map_of (missing_in_rust (compare (add_field A category name fld tag) B))
           (category @ ''/'' @ name) =
         Some (''fields: '' @ py_repr_list (py_sorted
                 (fld # fields_only_in (dict_get (categories A) category [])
                          (dict_get (categories B) category []) name)))
    \<and> fld \<notin> set (fields_only_in (dict_get (categories A) category [])
                     (dict_get (categories B) category []) name)"
proof -
  let ?A' = "add_field A category name fld tag"
  define py where "py c = dict_get (categories A) c []" for c
  define py' where "py' c = dict_get (categories ?A') c []" for c
  define rs where "rs c = dict_get (categories B) c []" for c
  have py': "py' c = (if c = category then set_field (py c) name fld tag else py c)" for c
    by (simp add: py'_def py_def categories_add_field)
  have in_py: "name \<in> set (dict_keys (py category))" and in_rs: "name \<in> set (dict_keys (rs category))"
    using assms(2,3) by (simp_all add: py_def rs_def)
  have not_rs: "fld \<notin> set (reduced_fields (rs category) name)"
    using assms(6) by (simp add: reduced_fields_def rs_def)
  have keys: "set (dict_keys (py' c)) = set (dict_keys (py c))" for c
    by (simp add: py' dict_keys_set_field)
  have python_side: "model_finding (rs c) (py' c) n = model_finding (rs c) (py c) n"
    "model_triples (py' c) (rs c) n = model_triples (py c) (rs c) n" for c n
    using in_py assms(4) not_rs
    by (simp_all add: py' model_finding_rust_side_set_field model_triples_set_field)
  have rust_side: "model_finding (py' c) (rs c) n = model_finding (py c) (rs c) n"
    if "model_key c n \<noteq> model_key category name" for c n
  proof (cases "c = category")
    case True
    with that have "n \<noteq> name" by auto
    with True show ?thesis by (simp add: py' model_finding_set_field_other)
  next
    case False
    then show ?thesis by (simp add: py')
  qed
  have enums: "enums_entry ?A' = enums_entry A"
    by (simp add: enums_entry_add_field)
  have unfold_new: "compare ?A' B =
      compare_enums (case enums_entry A of None \<Rightarrow> [] | Some e \<Rightarrow> e)
       (case enums_entry B of None \<Rightarrow> [] | Some e \<Rightarrow> e)
       (compare_models ''com'' (py' ''com'') (rs ''com'')
          (compare_models ''bo'' (py' ''bo'') (rs ''bo'') empty_report))"
    by (simp add: compare_unfold enums py'_def rs_def)
  have unfold_old: "compare A B =
      compare_enums (case enums_entry A of None \<Rightarrow> [] | Some e \<Rightarrow> e)
       (case enums_entry B of None \<Rightarrow> [] | Some e \<Rightarrow> e)
       (compare_models ''com'' (py ''com'') (rs ''com'')
          (compare_models ''bo'' (py ''bo'') (rs ''bo'') empty_report))"
    by (simp add: compare_unfold py_def rs_def)
  have mip: "missing_in_python (compare ?A' B) = missing_in_python (compare A B)"
    unfolding unfold_new unfold_old
    by (intro compare_enums_python_side compare_models_python_side keys python_side refl)
  have tm: "type_mismatches (compare ?A' B) = type_mismatches (compare A B)"
    unfolding unfold_new unfold_old
    by (intro compare_enums_python_side compare_models_python_side keys python_side refl)
  have other: "map_of (missing_in_rust (compare ?A' B)) k = map_of (missing_in_rust (compare A B)) k"
    if "k \<noteq> category @ ''/'' @ name" for k
  proof -
    from that have k: "k \<noteq> model_key category name" by (simp add: model_key_def)
    show ?thesis
      unfolding unfold_new unfold_old
      by (intro compare_enums_rust_side_at compare_models_rust_side_at keys rust_side refl)
         (use k in auto)
  qed
  have old: "map_of (missing_in_rust (compare A B)) (category @ ''/'' @ name) =
         (if fields_only_in (py category) (rs category) name = [] then None
          else Some (''fields: '' @ py_repr_list (py_sorted
                  (fields_only_in (py category) (rs category) name))))"
    using lookup_compare_rust [of category name A B] assms(1) in_py in_rs
    by (simp add: py_def rs_def model_finding_def)
  have "map_of (missing_in_rust (compare ?A' B)) (category @ ''/'' @ name) =
        model_finding (py' category) (rs category) name"
    using lookup_compare_rust [of category name ?A' B] assms(1) in_rs
    by (simp add: py'_def rs_def)
  also have "\<dots> = Some (''fields: '' @ py_repr_list (py_sorted
                 (fld # fields_only_in (py category) (rs category) name)))"
    using in_py in_rs assms(4) not_rs by (simp add: py' model_finding_set_field_at)
  finally have new: "map_of (missing_in_rust (compare ?A' B)) (category @ ''/'' @ name) =
        Some (''fields: '' @ py_repr_list (py_sorted
                 (fld # fields_only_in (py category) (rs category) name)))" .
  have fresh: "fld \<notin> set (fields_only_in (py category) (rs category) name)"
    using assms(5) by (simp add: fields_only_in_def reduced_fields_def py_def)
  from mip tm other old new fresh show ?thesis
    unfolding py_def rs_def by blast
qed

section \<open>The claims\<close>

subsection \<open>C1: a type on one side only\<close>

text \<open>
  C1, as the claim states it, fails: a name that only the Rust side (snapshot B) has is
  recorded in \<open>missing_in_python\<close> (\<open>missingInA\<close>), and \<open>missing_in_rust\<close> stays empty.
\<close>

theorem only_in_rust_not_missing_in_rust:
  "compare_enums [] [(''Sparte'', [''STROM''])] empty_report =
     \<lparr>missing_in_rust = [], missing_in_python = [(''enum/Sparte'', ''entire type'')],
      type_mismatches = []\<rparr>
   \<and> compare_models ''com'' [] [(''Adresse'', Some [(''ort'', Some ''string'')])] empty_report =
     \<lparr>missing_in_rust = [], missing_in_python = [(''com/Adresse'', ''entire type'')],
      type_mismatches = []\<rparr>"
  by code_simp

text \<open>
  C1, amended: the direction is the other one. A type or enum name that only the Python
  side (A) has is recorded in \<open>missing_in_rust\<close> (\<open>missingInB\<close>) under its qualified name
  with the description \<open>entire type\<close>, and a name that only the Rust side (B) has is
  recorded so in \<open>missing_in_python\<close> (\<open>missingInA\<close>). The round of the loop for such a
  name does nothing else (no field or variant is compared), and the entry is still there
  when the loop has ended, while the other dict keeps for that key what it had before.
\<close>

theorem entire_type_recorded:
  "(name \<in> set (dict_keys python_models) \<and> name \<notin> set (dict_keys rust_models) \<longrightarrow>
      compare_models_step c python_models rust_models r name =
        r\<lparr>missing_in_rust :=
            AList.update (c @ ''/'' @ name) ''entire type'' (missing_in_rust r)\<rparr>
      \<and> map_of (missing_in_rust (compare_models c python_models rust_models r))
            (c @ ''/'' @ name) = Some ''entire type''
      \<and> map_of (missing_in_python (compare_models c python_models rust_models r))
            (c @ ''/'' @ name) = map_of (missing_in_python r) (c @ ''/'' @ name))
   \<and> (name \<in> set (dict_keys rust_models) \<and> name \<notin> set (dict_keys python_models) \<longrightarrow>
      compare_models_step c python_models rust_models r name =
        r\<lparr>missing_in_python :=
            AList.update (c @ ''/'' @ name) ''entire type'' (missing_in_python r)\<rparr>
      \<and> map_of (missing_in_python (compare_models c python_models rust_models r))
            (c @ ''/'' @ name) = Some ''entire type''
      \<and> map_of (missing_in_rust (compare_models c python_models rust_models r))
            (c @ ''/'' @ name) = map_of (missing_in_rust r) (c @ ''/'' @ name))
   \<and> (name \<in> set (dict_keys python_enums) \<and> name \<notin> set (dict_keys rust_enums) \<longrightarrow>
      compare_enums_step python_enums rust_enums r name =
        r\<lparr>missing_in_rust :=
            AList.update (''enum/'' @ name) ''entire type'' (missing_in_rust r)\<rparr>
      \<and> map_of (missing_in_rust (compare_enums python_enums rust_enums r))
            (''enum/'' @ name) = Some ''entire type''
      \<and> map_of (missing_in_python (compare_enums python_enums rust_enums r))
            (''enum/'' @ name) = map_of (missing_in_python r) (''enum/'' @ name))
   \<and> (name \<in> set (dict_keys rust_enums) \<and> name \<notin> set (dict_keys python_enums) \<longrightarrow>
      compare_enums_step python_enums rust_enums r name =
        r\<lparr>missing_in_python :=
            AList.update (''enum/'' @ name) ''entire type'' (missing_in_python r)\<rparr>
      \<and> map_of (missing_in_python (compare_enums python_enums rust_enums r))
            (''enum/'' @ name) = Some ''entire type''
      \<and> map_of (missing_in_rust (compare_enums python_enums rust_enums r))
            (''enum/'' @ name) = map_of (missing_in_rust r) (''enum/'' @ name))"
proof -
  have models_rust:
    "map_of (missing_in_rust (compare_models c py rs r)) (c @ ''/'' @ name) = Some ''entire type''"
    "map_of (missing_in_python (compare_models c py rs r)) (c @ ''/'' @ name) =
       map_of (missing_in_python r) (c @ ''/'' @ name)"
    if "name \<in> set (dict_keys py)" "name \<notin> set (dict_keys rs)" for py rs :: models
    using that
      lookup_missing_in_rust_models [of name py rs c r]
      lookup_missing_in_python_models [of name py rs c r]
    by (simp_all add: model_finding_def)
  have models_python:
    "map_of (missing_in_python (compare_models c py rs r)) (c @ ''/'' @ name) = Some ''entire type''"
    "map_of (missing_in_rust (compare_models c py rs r)) (c @ ''/'' @ name) =
       map_of (missing_in_rust r) (c @ ''/'' @ name)"
    if "name \<in> set (dict_keys rs)" "name \<notin> set (dict_keys py)" for py rs :: models
    using that
      lookup_missing_in_rust_models [of name py rs c r]
      lookup_missing_in_python_models [of name py rs c r]
    by (simp_all add: model_finding_def)
  have enums_rust:
    "map_of (missing_in_rust (compare_enums py rs r)) (''enum/'' @ name) = Some ''entire type''"
    "map_of (missing_in_python (compare_enums py rs r)) (''enum/'' @ name) =
       map_of (missing_in_python r) (''enum/'' @ name)"
    if "name \<in> set (dict_keys py)" "name \<notin> set (dict_keys rs)" for py rs :: enums
    using that
      lookup_missing_in_rust_enums [of name py rs r]
      lookup_missing_in_python_enums [of name py rs r]
    by (simp_all add: enum_finding_def)
  have enums_python:
    "map_of (missing_in_python (compare_enums py rs r)) (''enum/'' @ name) = Some ''entire type''"
    "map_of (missing_in_rust (compare_enums py rs r)) (''enum/'' @ name) =
       map_of (missing_in_rust r) (''enum/'' @ name)"
    if "name \<in> set (dict_keys rs)" "name \<notin> set (dict_keys py)" for py rs :: enums
    using that
      lookup_missing_in_rust_enums [of name py rs r]
      lookup_missing_in_python_enums [of name py rs r]
    by (simp_all add: enum_finding_def)
  show ?thesis
    using models_rust [of python_models rust_models] models_python [of rust_models python_models]
      enums_rust [of python_enums rust_enums] enums_python [of rust_enums python_enums]
    by (simp add: compare_models_step_def compare_enums_step_def)
qed

theorem entire_type_recorded_witness:
  "map_of (missing_in_rust
       (compare_models ''com'' [(''Adresse'', Some [(''ort'', Some ''string'')])] [] empty_report))
     ''com/Adresse'' = Some ''entire type''
   \<and> map_of (missing_in_python
       (compare_models ''com'' [] [(''Adresse'', Some [(''ort'', Some ''string'')])] empty_report))
     ''com/Adresse'' = Some ''entire type''
   \<and> map_of (missing_in_rust (compare_enums [(''Sparte'', [''STROM''])] [] empty_report))
     ''enum/Sparte'' = Some ''entire type''
   \<and> map_of (missing_in_python (compare_enums [] [(''Sparte'', [''STROM''])] empty_report))
     ''enum/Sparte'' = Some ''entire type''"
  using entire_type_recorded [of "''Adresse''" "[(''Adresse'', Some [(''ort'', Some ''string'')])]" "[]"
      "''com''" empty_report "[(''Sparte'', [''STROM''])]" "[]"]
    entire_type_recorded [of "''Adresse''" "[]" "[(''Adresse'', Some [(''ort'', Some ''string'')])]"
      "''com''" empty_report  "[]" "[(''Sparte'', [''STROM''])]"]
    entire_type_recorded [of "''Sparte''" "[(''Adresse'', Some [(''ort'', Some ''string'')])]" "[]"
      "''com''" empty_report "[(''Sparte'', [''STROM''])]" "[]"]
    entire_type_recorded [of "''Sparte''" "[]" "[(''Adresse'', Some [(''ort'', Some ''string'')])]"
      "''com''" empty_report  "[]" "[(''Sparte'', [''STROM''])]"]
  by (simp add: dict_keys_def)

subsection \<open>C2: the ignore set\<close>

text \<open>
  C2. For every pair of snapshots, adding (or overwriting) and removing a field whose name
  is in the ignore set, in any type of any category on either side, leaves the report of
  \<open>compare\<close> unchanged: such a field contributes neither to the field findings nor to the
  type mismatches.
\<close>

theorem ignored_fields_do_not_count:
  assumes "fld \<in> set ignore_fields"
  shows "compare (add_field A category name fld tag) B = compare A B
    \<and> compare A (add_field B category name fld tag) = compare A B
    \<and> compare (remove_field A category name fld) B = compare A B
    \<and> compare A (remove_field B category name fld) = compare A B"
proof (intro conjI)
  show "compare (add_field A category name fld tag) B = compare A B"
    by (rule compare_agree)
       (simp_all add: models_agree_add_field [OF assms] models_agree_refl enums_agree_refl
          enums_entry_add_field)
  show "compare A (add_field B category name fld tag) = compare A B"
    by (rule compare_agree)
       (simp_all add: models_agree_add_field [OF assms] models_agree_refl enums_agree_refl
          enums_entry_add_field)
  show "compare (remove_field A category name fld) B = compare A B"
    by (rule compare_agree)
       (simp_all add: models_agree_remove_field [OF assms] models_agree_refl enums_agree_refl
          enums_entry_remove_field)
  show "compare A (remove_field B category name fld) = compare A B"
    by (rule compare_agree)
       (simp_all add: models_agree_remove_field [OF assms] models_agree_refl enums_agree_refl
          enums_entry_remove_field)
qed

theorem ignored_fields_do_not_count_witness:
  "''_version'' \<in> set ignore_fields
   \<and> add_field sample_rust ''bo'' ''Zaehler'' ''_version'' (Some ''integer'') \<noteq> sample_rust
   \<and> remove_field sample_python ''bo'' ''Zaehler'' ''_id'' \<noteq> sample_python
   \<and> compare sample_python (add_field sample_rust ''bo'' ''Zaehler'' ''_version'' (Some ''integer''))
     = compare sample_python sample_rust
   \<and> compare (remove_field sample_python ''bo'' ''Zaehler'' ''_id'') sample_rust
     = compare sample_python sample_rust"
proof -
  have 1: "''_version'' \<in> set ignore_fields" "''_id'' \<in> set ignore_fields"
    by (simp_all add: ignore_fields_def)
  have 2: "add_field sample_rust ''bo'' ''Zaehler'' ''_version'' (Some ''integer'') \<noteq> sample_rust"
    by (simp add: add_field_def sample_rust_def set_field_def)
  have 3: "remove_field sample_python ''bo'' ''Zaehler'' ''_id'' \<noteq> sample_python"
    by (simp add: remove_field_def sample_python_def del_field_def)
  from ignored_fields_do_not_count [OF 1(1), of sample_python "''bo''" "''Zaehler''" "Some ''integer''" sample_rust]
    ignored_fields_do_not_count [OF 1(2), of sample_python "''bo''" "''Zaehler''" "None" sample_rust]
    1 2 3
  show ?thesis by blast
qed

subsection \<open>C3: when a type mismatch is recorded\<close>

text \<open>
  C3, as the claim states it, fails: both sides declare a type tag for the field \<open>nr\<close>,
  the tags are different strings, and no entry is appended, because the Python side's tag
  is the empty string.
\<close>

theorem empty_tag_no_mismatch:
  "type_mismatches
     (compare_models ''bo'' [(''Zaehler'', Some [(''nr'', Some '''')])]
        [(''Zaehler'', Some [(''nr'', Some ''string'')])] empty_report) = []
   \<and> field_type [(''nr'', Some '''')] ''nr'' \<noteq> None
   \<and> field_type [(''nr'', Some ''string'')] ''nr'' \<noteq> None
   \<and> field_type [(''nr'', Some '''')] ''nr'' \<noteq> field_type [(''nr'', Some ''string'')] ''nr''"
  by code_simp

text \<open>
  C3, amended. \<open>compare_models\<close> appends to \<open>type_mismatches\<close>, for every type that both
  sides have (in sorted order) and every field in the intersection of the two reduced
  field sets (in sorted order), one entry if and only if both sides declare a type tag
  for the field, neither tag is empty (the test is Python's truth test), and the two tags
  are unequal as strings; and it appends nothing else.
\<close>

theorem type_mismatches_characterised:
  "type_mismatches (compare_models c py rs r) =
     type_mismatches r @
     concat (map (\<lambda>name.
               concat (map (\<lambda>fld.
                         mismatch_if_clash c name fld
                           (field_type (get_properties py name) fld)
                           (field_type (get_properties rs name) fld))
                       (common_fields py rs name)))
             (types_in_both py rs))"
proof -
  have "concat (map (\<lambda>n. entries c n (model_triples py rs n))
                  (py_sorted (dict_keys py @ dict_keys rs))) =
        concat (map (\<lambda>n. entries c n (model_triples py rs n)) (types_in_both py rs))"
    unfolding types_in_both_def
    by (rule concat_map_filter) (auto simp: model_triples_def entries_def)
  also have "\<dots> =
        concat (map (\<lambda>name.
               concat (map (\<lambda>fld.
                         mismatch_if_clash c name fld
                           (field_type (get_properties py name) fld)
                           (field_type (get_properties rs name) fld))
                       (common_fields py rs name)))
             (types_in_both py rs))"
    by (rule arg_cong [where f = concat], rule map_cong [OF refl])
       (simp add: types_in_both_def model_triples_def entries_concat entries_field_triple
          comp_def)
  finally show ?thesis
    by (simp add: compare_models_eq)
qed

theorem type_mismatches_characterised_witness:
  "type_mismatches
     (compare_models ''bo'' (dict_get (categories sample_python) ''bo'' [])
        (dict_get (categories sample_rust) ''bo'' []) empty_report) =
   [''bo/Zaehler.zaehlernummer: Python=string, Rust=integer'']"
proof -
  let ?py = "dict_get (categories sample_python) ''bo'' []"
  let ?rs = "dict_get (categories sample_rust) ''bo'' []"
  have "type_mismatches (compare_models ''bo'' ?py ?rs empty_report) =
     type_mismatches empty_report @
     concat (map (\<lambda>name.
               concat (map (\<lambda>fld.
                         mismatch_if_clash ''bo'' name fld
                           (field_type (get_properties ?py name) fld)
                           (field_type (get_properties ?rs name) fld))
                       (common_fields ?py ?rs name)))
             (types_in_both ?py ?rs))"
    by (rule type_mismatches_characterised)
  also have "\<dots> = [''bo/Zaehler.zaehlernummer: Python=string, Rust=integer'']"
    by code_simp
  finally show ?thesis .
qed

subsection \<open>C4: the two sides exchanged\<close>

text \<open>
  C4. For all snapshots \<open>A\<close> and \<open>B\<close>, the report of \<open>compare B A\<close> has as \<open>missing_in_rust\<close>
  the \<open>missing_in_python\<close> of \<open>compare A B\<close> and as \<open>missing_in_python\<close> its
  \<open>missing_in_rust\<close>, and the two lists of type mismatches are the same entries, in the same
  order, with the two reported type values exchanged in each.
\<close>

theorem compare_symmetric:
  "missing_in_rust (compare B A) = missing_in_python (compare A B)
   \<and> missing_in_python (compare B A) = missing_in_rust (compare A B)
   \<and> (\<exists>ms. type_mismatches (compare A B) =
              map (\<lambda>(c, n, fld, a, b). mismatch_entry c n fld a b) ms
          \<and> type_mismatches (compare B A) =
              map (\<lambda>(c, n, fld, a, b). mismatch_entry c n fld b a) ms)"
proof (intro conjI)
  show "missing_in_rust (compare B A) = missing_in_python (compare A B)"
    by (simp add: compare_eq all_names_commute [of "dict_get (categories B) ''bo'' []"]
        all_names_commute [of "dict_get (categories B) ''com'' []"]
        all_names_commute [of "case enums_entry B of None \<Rightarrow> [] | Some e \<Rightarrow> e"])
  show "missing_in_python (compare B A) = missing_in_rust (compare A B)"
    by (simp add: compare_eq all_names_commute [of "dict_get (categories B) ''bo'' []"]
        all_names_commute [of "dict_get (categories B) ''com'' []"]
        all_names_commute [of "case enums_entry B of None \<Rightarrow> [] | Some e \<Rightarrow> e"])
  let ?ms = "tagged_triples ''bo'' (dict_get (categories A) ''bo'' []) (dict_get (categories B) ''bo'' [])
           @ tagged_triples ''com'' (dict_get (categories A) ''com'' [])
               (dict_get (categories B) ''com'' [])"
  have "type_mismatches (compare A B) = map (\<lambda>(c, n, fld, a, b). mismatch_entry c n fld a b) ?ms"
    by (simp add: compare_eq)
  moreover have "type_mismatches (compare B A) =
      map (\<lambda>(c, n, fld, a, b). mismatch_entry c n fld b a) ?ms"
    by (simp add: compare_unfold compare_enums_eq compare_models_eq empty_report_def
        entries_tagged_swapped)
  ultimately show "\<exists>ms. type_mismatches (compare A B) =
              map (\<lambda>(c, n, fld, a, b). mismatch_entry c n fld a b) ms
          \<and> type_mismatches (compare B A) =
              map (\<lambda>(c, n, fld, a, b). mismatch_entry c n fld b a) ms"
    by blast
qed

theorem compare_symmetric_witness:
  "missing_in_rust (compare sample_rust sample_python) =
     missing_in_python (compare sample_python sample_rust)
   \<and> missing_in_python (compare sample_rust sample_python) =
     missing_in_rust (compare sample_python sample_rust)
   \<and> type_mismatches (compare sample_python sample_rust) =
       [mismatch_entry ''bo'' ''Zaehler'' ''zaehlernummer'' ''string'' ''integer'']
   \<and> type_mismatches (compare sample_rust sample_python) =
       [mismatch_entry ''bo'' ''Zaehler'' ''zaehlernummer'' ''integer'' ''string'']"
  using compare_symmetric [of sample_rust sample_python]
  by (simp add: sample_compare sample_compare_swapped mismatch_entry_def)

subsection \<open>C5: a snapshot compared with itself\<close>

text \<open>
  C5. For every snapshot \<open>A\<close>, \<open>compare A A\<close> is the empty report: the three collections
  are empty, \<open>has_drift\<close> is false, and the rendered report is the no-drift text.
\<close>

theorem compare_self:
  "compare A A = empty_report \<and> \<not> has_drift (compare A A)
   \<and> generate_report (compare A A) = ''# BO4E Drift Report'' @ newline @ newline @ no_drift_line"
  by (simp add: compare_unfold compare_models_self compare_enums_self has_drift_def
      empty_report_def generate_report_def no_drift_line_def)

theorem compare_self_witness:
  "compare sample_python sample_python = empty_report
   \<and> \<not> has_drift (compare sample_python sample_python)"
  using compare_self [of sample_python] by (simp add: has_drift_def empty_report_def)

subsection \<open>C6: determinism\<close>

text \<open>
  C6. The report and its rendering are functions of the contents of the two snapshots
  alone: two pairs of snapshots with the same contents, whatever the order in which their
  dicts and variant lists enumerate them, give the same report, the same rendered string
  and the same output of \<open>main\<close>. The reason is that every traversal goes through
  \<open>py_sorted\<close>, whose result is the sorted list of the set it is given.
\<close>

theorem report_depends_on_contents_only:
  assumes "same_snapshot A A'" and "same_snapshot B B'"
  shows "compare A B = compare A' B'
    \<and> generate_report (compare A B) = generate_report (compare A' B')
    \<and> main python_path rust_path (Parsed A) (Parsed B) =
      main python_path rust_path (Parsed A') (Parsed B')
    \<and> py_sorted xs = sorted_list_of_set (set xs)"
proof -
  have "compare A B = compare A' B'"
    by (rule compare_agree)
       (simp_all add: same_snapshot_models assms same_snapshot_enums)
  moreover have "py_sorted xs = sorted_list_of_set (set xs)"
    by (simp add: py_sorted_def sorted_list_of_set_sort_remdups)
  ultimately show ?thesis by (simp add: main_def)
qed

theorem report_depends_on_contents_only_witness:
  "same_snapshot sample_python shuffled_python
   \<and> sample_python \<noteq> shuffled_python
   \<and> compare sample_python sample_rust = compare shuffled_python sample_rust
   \<and> generate_report (compare sample_python sample_rust) =
     generate_report (compare shuffled_python sample_rust)"
proof -
  have 1: "same_snapshot sample_python shuffled_python" by (rule same_shuffled)
  have 2: "same_snapshot sample_rust sample_rust"
    by (auto simp: same_snapshot_def sample_rust_def same_models_def
      same_enums_def same_props_def)
  have 3: "sample_python \<noteq> shuffled_python"
    by (simp add: sample_python_def shuffled_python_def)
  from report_depends_on_contents_only [OF 1 2] 1 3 show ?thesis by blast
qed

subsection \<open>C7: the exit status\<close>



subsection \<open>C8: a field added on the Python side\<close>

text \<open>
  C8, as the claim states it, fails: a field of the ignore set added to a type of \<open>A\<close>,
  which \<open>B\<close> does not have, adds no entry (the report is the same), and so does a field
  added to a type that \<open>B\<close> lacks altogether (its entry stays \<open>entire type\<close>).
\<close>

theorem added_field_without_new_finding:
  "''_version'' \<notin> set (dict_keys (get_properties (dict_get (categories sample_python) ''bo'' []) ''Zaehler''))
   \<and> ''_version'' \<notin> set (dict_keys (get_properties (dict_get (categories sample_rust) ''bo'' []) ''Zaehler''))
   \<and> compare (add_field sample_python ''bo'' ''Zaehler'' ''_version'' (Some ''string'')) sample_rust =
       compare sample_python sample_rust
   \<and> map_of (missing_in_rust
         (compare (add_field sample_python ''bo'' ''Zaehler'' ''_version'' (Some ''string'')) sample_rust))
       ''bo/Zaehler'' = None
   \<and> ''plz'' \<notin> set (dict_keys (get_properties (dict_get (categories sample_python) ''com'' []) ''Adresse''))
   \<and> ''plz'' \<notin> set (dict_keys (get_properties (dict_get (categories sample_rust) ''com'' []) ''Adresse''))
   \<and> compare (add_field sample_python ''com'' ''Adresse'' ''plz'' (Some ''string'')) sample_rust =
       compare sample_python sample_rust"
  by code_simp

text \<open>
  C8, amended. Let a type be present in the same category of both snapshots, the category
  being \<open>bo\<close> or \<open>com\<close> (the two that \<open>main\<close> compares), and add to it in \<open>A\<close> a field that
  is not in the ignore set and that neither side's definition of the type has. Then
  \<open>missing_in_python\<close> and \<open>type_mismatches\<close> are unchanged, every other key of
  \<open>missing_in_rust\<close> keeps its entry, and the entry of the type in \<open>missing_in_rust\<close>, which
  was absent or listed the fields only \<open>A\<close> had, now lists those fields and the new one.
  A field of the ignore set, a field added to a type that \<open>B\<close> lacks in that category, and a
  field added in any other category leave the whole report as it was.
\<close>

theorem added_field_extends_finding:
  "((category = ''bo'' \<or> category = ''com'')
      \<and> name \<in> set (dict_keys (dict_get (categories A) category []))
      \<and> name \<in> set (dict_keys (dict_get (categories B) category []))
      \<and> fld \<notin> set ignore_fields
      \<and> fld \<notin> set (dict_keys (get_properties (dict_get (categories A) category []) name))
      \<and> fld \<notin> set (dict_keys (get_properties (dict_get (categories B) category []) name))
    \<longrightarrow>
      missing_in_python (compare (add_field A category name fld tag) B) =
        missing_in_python (compare A B)
      \<and> type_mismatches (compare (add_field A category name fld tag) B) =
        type_mismatches (compare A B)
      \<and> (\<forall>k. k \<noteq> category @ ''/'' @ name \<longrightarrow>
           map_of (missing_in_rust (compare (add_field A category name fld tag) B)) k =
           map_of (missing_in_rust (compare A B)) k)
      \<and> map_of (missing_in_rust (compare A B)) (category @ ''/'' @ name) =
         (if fields_only_in (dict_get (categories A) category [])
               (dict_get (categories B) category []) name = []
          then None
          else Some (''fields: '' @ py_repr_list (py_sorted
                  (fields_only_in (dict_get (categories A) category [])
                     (dict_get (categories B) category []) name))))
      \<and> map_of (missing_in_rust (compare (add_field A category name fld tag) B))
           (category @ ''/'' @ name) =
         Some (''fields: '' @ py_repr_list (py_sorted
                 (fld # fields_only_in (dict_get (categories A) category [])
                          (dict_get (categories B) category []) name)))
      \<and> fld \<notin> set (fields_only_in (dict_get (categories A) category [])
                     (dict_get (categories B) category []) name))
   \<and> (fld \<in> set ignore_fields \<longrightarrow>
        compare (add_field A category name fld tag) B = compare A B)
   \<and> (name \<notin> set (dict_keys (dict_get (categories B) category [])) \<longrightarrow>
        compare (add_field A category name fld tag) B = compare A B)
   \<and> (category \<noteq> ''bo'' \<and> category \<noteq> ''com'' \<longrightarrow>
        compare (add_field A category name fld tag) B = compare A B)"
  (is "(?H \<longrightarrow> ?C) \<and> (?I \<longrightarrow> ?E) \<and> (?N \<longrightarrow> ?E) \<and> (?O \<longrightarrow> ?E)")
proof (intro conjI)
  show "?H \<longrightarrow> ?C"
  proof
    assume ?H
    then show ?C
      by (intro added_field_in_both) simp_all
  qed
  show "?I \<longrightarrow> ?E"
    by (simp add: compare_add_field_ignored)
  show "?N \<longrightarrow> ?E"
    by (simp add: compare_add_field_absent)
  show "?O \<longrightarrow> ?E"
    by (simp add: compare_add_field_other_category)
qed

theorem added_field_extends_finding_witness:
  "map_of (missing_in_rust (compare sample_python sample_rust)) ''bo/Zaehler'' = None
   \<and> map_of (missing_in_rust
         (compare (add_field sample_python ''bo'' ''Zaehler'' ''sparte'' (Some ''string'')) sample_rust))
       ''bo/Zaehler'' = Some (''fields: ['' @ [CHR 0x27] @ ''sparte'' @ [CHR 0x27] @ '']'')
   \<and> missing_in_python
         (compare (add_field sample_python ''bo'' ''Zaehler'' ''sparte'' (Some ''string'')) sample_rust) =
       missing_in_python (compare sample_python sample_rust)
   \<and> type_mismatches
         (compare (add_field sample_python ''bo'' ''Zaehler'' ''sparte'' (Some ''string'')) sample_rust) =
       type_mismatches (compare sample_python sample_rust)
   \<and> compare (add_field sample_python ''bo'' ''Zaehler'' ''_typ'' (Some ''string'')) sample_rust =
       compare sample_python sample_rust
   \<and> compare (add_field sample_python ''com'' ''Adresse'' ''hausnummer'' (Some ''string'')) sample_rust =
       compare sample_python sample_rust
   \<and> compare (add_field sample_python ''enum'' ''Sparte'' ''sparte'' (Some ''string'')) sample_rust =
       compare sample_python sample_rust"
proof -
  let ?py = "dict_get (categories sample_python) ''bo'' []"
  let ?rs = "dict_get (categories sample_rust) ''bo'' []"
  have h1: "''bo'' = ''bo'' \<or> ''bo'' = ''com''" by simp
  have h2: "''Zaehler'' \<in> set (dict_keys ?py)" by code_simp
  have h3: "''Zaehler'' \<in> set (dict_keys ?rs)" by code_simp
  have h4: "''sparte'' \<notin> set ignore_fields" by code_simp
  have h5: "''sparte'' \<notin> set (dict_keys (get_properties ?py ''Zaehler''))" by code_simp
  have h6: "''sparte'' \<notin> set (dict_keys (get_properties ?rs ''Zaehler''))" by code_simp
  note t = added_field_extends_finding [of "''bo''" "''Zaehler''" sample_python sample_rust
      "''sparte''" "Some ''string''"]
  have "map_of (missing_in_rust (compare sample_python sample_rust)) (''bo'' @ ''/'' @ ''Zaehler'') =
        (if fields_only_in ?py ?rs ''Zaehler'' = [] then None
         else Some (''fields: '' @ py_repr_list (py_sorted (fields_only_in ?py ?rs ''Zaehler''))))"
    using t h1 h2 h3 h4 h5 h6 by blast
  also have "\<dots> = None" by code_simp
  finally have old: "map_of (missing_in_rust (compare sample_python sample_rust)) ''bo/Zaehler'' = None"
    by simp
  have "map_of (missing_in_rust
         (compare (add_field sample_python ''bo'' ''Zaehler'' ''sparte'' (Some ''string'')) sample_rust))
         (''bo'' @ ''/'' @ ''Zaehler'') =
        Some (''fields: '' @ py_repr_list (py_sorted (''sparte'' # fields_only_in ?py ?rs ''Zaehler'')))"
    using t h1 h2 h3 h4 h5 h6 by blast
  also have "\<dots> = Some (''fields: ['' @ [CHR 0x27] @ ''sparte'' @ [CHR 0x27] @ '']'')"
    by code_simp
  finally have new: "map_of (missing_in_rust
         (compare (add_field sample_python ''bo'' ''Zaehler'' ''sparte'' (Some ''string'')) sample_rust))
       ''bo/Zaehler'' = Some (''fields: ['' @ [CHR 0x27] @ ''sparte'' @ [CHR 0x27] @ '']'')"
    by simp
  have rest: "missing_in_python
         (compare (add_field sample_python ''bo'' ''Zaehler'' ''sparte'' (Some ''string'')) sample_rust) =
       missing_in_python (compare sample_python sample_rust)"
    "type_mismatches
         (compare (add_field sample_python ''bo'' ''Zaehler'' ''sparte'' (Some ''string'')) sample_rust) =
       type_mismatches (compare sample_python sample_rust)"
    using t h1 h2 h3 h4 h5 h6 by blast+
  have i: "''_typ'' \<in> set ignore_fields" by code_simp
  have ignored: "compare (add_field sample_python ''bo'' ''Zaehler'' ''_typ'' (Some ''string'')) sample_rust =
       compare sample_python sample_rust"
    using added_field_extends_finding [of "''bo''" "''Zaehler''" sample_python sample_rust
      "''_typ''" "Some ''string''"] i by blast
  have n: "''Adresse'' \<notin> set (dict_keys (dict_get (categories sample_rust) ''com'' []))"
    by code_simp
  have absent: "compare (add_field sample_python ''com'' ''Adresse'' ''hausnummer'' (Some ''string'')) sample_rust =
       compare sample_python sample_rust"
    using added_field_extends_finding [of "''com''" "''Adresse''" sample_python sample_rust
      "''hausnummer''" "Some ''string''"] n by blast
  have o: "''enum'' \<noteq> ''bo'' \<and> ''enum'' \<noteq> ''com''" by simp
  have other: "compare (add_field sample_python ''enum'' ''Sparte'' ''sparte'' (Some ''string'')) sample_rust =
       compare sample_python sample_rust"
    using added_field_extends_finding [of "''enum''" "''Sparte''" sample_python sample_rust
      "''sparte''" "Some ''string''"] o by blast
  from old new rest ignored absent other show ?thesis by blast
qed

subsection \<open>C9: the report without drift\<close>

text \<open>
  C9, as the claim states it, fails: without drift the renderer does not write the
  no-drift line alone. Its output starts with the title line and an empty line, so it has
  three lines.
\<close>

theorem no_drift_not_single_line:
  "\<not> has_drift empty_report
   \<and> generate_report empty_report \<noteq> no_drift_line
   \<and> count_list (generate_report empty_report) (CHR 0x0A) = 2"
  by (simp add: has_drift_def empty_report_def generate_report_def no_drift_line_def newline_def)

text \<open>
  C9, amended. \<open>has_drift\<close> is true exactly when one of the three collections is not
  empty, and without drift the whole output is the fixed text made of the title line, an
  empty line and the no-drift line.
\<close>

theorem no_drift_rendering:
  "(has_drift r \<longleftrightarrow>
      missing_in_rust r \<noteq> [] \<or> missing_in_python r \<noteq> [] \<or> type_mismatches r \<noteq> [])
   \<and> (\<not> has_drift r \<longrightarrow>
        generate_report r = ''# BO4E Drift Report'' @ newline @ newline @ no_drift_line)"
  by (simp add: has_drift_def generate_report_def no_drift_line_def)

theorem no_drift_rendering_witness:
  "\<not> has_drift empty_report
   \<and> generate_report empty_report = ''# BO4E Drift Report'' @ newline @ newline @ no_drift_line"
  using no_drift_rendering [of empty_report]
  by (simp add: has_drift_def empty_report_def)

subsection \<open>C10: the empty type tag\<close>

text \<open>
  C10. For a field whose type tag is the empty string on either side, the round of the
  loop over the common fields appends nothing, whatever the other tag is; and a tag that
  is present but empty is treated exactly like an absent one: replacing every empty tag
  of either side by no tag leaves the result of \<open>compare_models\<close> unchanged.
\<close>

theorem empty_tag_is_no_opinion:
  "(field_type py_props fld = Some [] \<or> field_type rs_props fld = Some [] \<longrightarrow>
      check_field c name py_props rs_props r fld = r)
   \<and> compare_models c (drop_empty_tags py) rs r = compare_models c py rs r
   \<and> compare_models c py (drop_empty_tags rs) r = compare_models c py rs r"
proof (intro conjI impI)
  assume "field_type py_props fld = Some [] \<or> field_type rs_props fld = Some []"
  then show "check_field c name py_props rs_props r fld = r"
    by (auto simp: check_field_def split: option.splits)
next
  show "compare_models c (drop_empty_tags py) rs r = compare_models c py rs r"
    by (rule compare_models_agree) (simp_all add: models_agree_drop_empty_tags models_agree_refl)
  show "compare_models c py (drop_empty_tags rs) r = compare_models c py rs r"
    by (rule compare_models_agree) (simp_all add: models_agree_drop_empty_tags models_agree_refl)
qed

theorem empty_tag_is_no_opinion_witness:
  "field_type [(''nr'', Some '''')] ''nr'' = Some []
   \<and> check_field ''bo'' ''Zaehler'' [(''nr'', Some '''')] [(''nr'', Some ''string'')]
        empty_report ''nr'' = empty_report
   \<and> drop_empty_tags [(''Zaehler'', Some [(''nr'', Some '''')])] = [(''Zaehler'', Some [(''nr'', None)])]
   \<and> compare_models ''bo'' [(''Zaehler'', Some [(''nr'', None)])]
        [(''Zaehler'', Some [(''nr'', Some ''string'')])] empty_report =
     compare_models ''bo'' [(''Zaehler'', Some [(''nr'', Some '''')])]
        [(''Zaehler'', Some [(''nr'', Some ''string'')])] empty_report"
proof -
  have 1: "field_type [(''nr'', Some '''')] ''nr'' = Some []"
    by (simp add: field_type_def)
  have 2: "drop_empty_tags [(''Zaehler'', Some [(''nr'', Some '''')])] =
           [(''Zaehler'', Some [(''nr'', None)])]"
    by (simp add: drop_empty_tags_def)
  from empty_tag_is_no_opinion [of "[(''nr'', Some '''')]" "''nr''" "[(''nr'', Some ''string'')]"
      "''bo''" "''Zaehler''" empty_report "[(''Zaehler'', Some [(''nr'', Some '''')])]"
      "[(''Zaehler'', Some [(''nr'', Some ''string'')])]"] 1 2
  show ?thesis by simp
qed

end
